theory Spec2Isabelle
  imports Complex_Main
begin

section \<open>SpaceDemo: data model\<close>

text \<open>
  The demo keeps one plain record per user (\<open>SpaceUserData\<close>) and mutates it in place on
  every tick. The embedding passes the record explicitly and returns the updated one.

  Numbers. Positions are JavaScript numbers that take fractional values (star speeds,
  random spawn points); they are modelled as \<open>real\<close>, which abstracts from the rounding of
  doubles. \<open>score\<close>, \<open>lives\<close> and \<open>invincibilityFrames\<close> are only ever assigned integer
  constants and changed by one, so they are \<open>int\<close>.

  Randomness. \<open>Math.random()\<close> is an oracle: the model takes the sequence of values it
  returns as a parameter \<open>rng :: nat \<Rightarrow> real\<close> together with the index of the next
  value, and every function that calls \<open>Math.random()\<close> returns the advanced index.
  The contract of \<open>Math.random()\<close> (a value in [0, 1)) is the predicate \<open>valid_rng\<close>.

  Field names of \<open>Star\<close> and \<open>Asteroid\<close> carry a prefix (\<open>star_x\<close>, \<open>ast_x\<close>), since
  the source uses \<open>x\<close>, \<open>y\<close> in both interfaces.
\<close>

record Star =
  star_x :: real
  star_y :: real
  star_color :: "nat option"

record Asteroid =
  ast_x :: real
  ast_y :: real
  ast_char :: "string option"

record SpaceUserData =
  starsFar :: "Star list"
  starsNear :: "Star list"
  asteroids :: "Asteroid list"
  shipX :: real
  shipY :: real
  score :: int
  lives :: int
  invincibilityFrames :: int
  gameOver :: bool

text \<open>
  The four \<open>Layer\<close> references of the source record are created once in \<open>initUser\<close> and
  never reassigned; the model names them and records each \<open>setOrders\<close> followed by
  \<open>commit\<close> as one emitted \<open>commit\<close> value.
\<close>

datatype layer = StarLayerFar | StarLayerNear | GameLayer | UiLayer

record Dot =
  posX :: int
  posY :: int
  charCode :: "string option"
  fgColorCode :: "nat option"
  bgColorCode :: nat

datatype order =
    Text int int string nat nat
  | DotCloudMultiColor "Dot list"
  | Sprite int int nat nat nat

type_synonym commit = "layer \<times> order list"

datatype error = TypeError | RangeError

text \<open>What the runtime hands to \<open>updateUser\<close> through \<open>user.getAxis\<close> and
  \<open>user.getButtonJustPressed\<close>.\<close>

record Input =
  getAxis :: "string \<Rightarrow> real"
  getButtonJustPressed :: "string \<Rightarrow> bool"

section \<open>Constants\<close>

definition WIDTH :: int where "WIDTH = 60"
definition HEIGHT :: int where "HEIGHT = 20"
definition TRANSPARENT :: nat where "TRANSPARENT = 255"
definition COLOR_DEEP_SPACE :: nat where "COLOR_DEEP_SPACE = 0"
definition COLOR_DIM_STAR :: nat where "COLOR_DIM_STAR = 1"
definition COLOR_MEDIUM_STAR :: nat where "COLOR_MEDIUM_STAR = 2"
definition COLOR_BRIGHT_STAR :: nat where "COLOR_BRIGHT_STAR = 3"
definition COLOR_SHIP :: nat where "COLOR_SHIP = 4"
definition COLOR_ASTEROID :: nat where "COLOR_ASTEROID = 6"
definition COLOR_WHITE :: nat where "COLOR_WHITE = 7"
definition COLOR_GOLD :: nat where "COLOR_GOLD = 8"
definition COLOR_GAMEOVER :: nat where "COLOR_GAMEOVER = 9"
definition COLOR_LOST_HEART :: nat where "COLOR_LOST_HEART = 10"
definition ASTEROIDS_START :: int where "ASTEROIDS_START = 2"
definition ASTEROIDS_MAX :: int where "ASTEROIDS_MAX = 10"
definition ASTEROIDS_PER_SCORE :: int where "ASTEROIDS_PER_SCORE = 3"
definition DIFFICULTY_FULL_AT :: int where "DIFFICULTY_FULL_AT = 20"
definition TICK_RATE :: int where "TICK_RATE = 30"
definition SPEED_SHIP :: real where "SPEED_SHIP = 1"
definition SPEED_ASTEROID :: real where "SPEED_ASTEROID = 1"
definition SPEED_STARS_FAR :: real where "SPEED_STARS_FAR = 1 / 2"
definition SPEED_STARS_NEAR :: real where "SPEED_STARS_NEAR = 3 / 2"

section \<open>Random source and array indexing\<close>

definition valid_rng :: "(nat \<Rightarrow> real) \<Rightarrow> bool" where
  "valid_rng rng = (\<forall>n. 0 \<le> rng n \<and> rng n < 1)"

text \<open>\<open>xs[Math.floor(r * xs.length)]\<close>: an index outside the array reads \<open>undefined\<close>
  (\<open>None\<close>).\<close>

definition pick :: "'a list \<Rightarrow> real \<Rightarrow> 'a option" where
  "pick xs r =
     (let i = \<lfloor>r * real (length xs)\<rfloor>
      in if 0 \<le> i \<and> i < int (length xs) then Some (xs ! nat i) else None)"

section \<open>Helpers of SpaceDemo\<close>

text \<open>
  \<open>createAsteroid(score)\<close>. The calls of \<open>Math.random()\<close> happen in the order: character,
  the comparison with \<open>centerBias\<close> (only when \<open>centerBias < 1\<close>: \<open>&&\<close> short-circuits),
  the side of the edge and the offset (edge branch) or the offset alone (full range),
  and last the \<open>x\<close> coordinate when the returned object is built.
\<close>

definition createAsteroid :: "(nat \<Rightarrow> real) \<Rightarrow> nat \<Rightarrow> int \<Rightarrow> Asteroid \<times> nat" where
  "createAsteroid rng k sc =
     (let chars = [''o'', ''O'', ''0''];
          char = pick chars (rng k);
          centerBias = min 1 (real_of_int sc / real_of_int DIFFICULTY_FULL_AT);
          minY = (2 :: real);
          maxY = real_of_int (HEIGHT - 3);
          halfRange = (maxY - minY) / 2
      in if centerBias < 1 \<and> rng (k + 1) > centerBias then
           let edgeRange = halfRange * (4 / 10);
               y = (if rng (k + 2) < 1 / 2 then minY + rng (k + 3) * edgeRange
                    else maxY - rng (k + 3) * edgeRange)
           in (\<lparr>ast_x = real_of_int WIDTH + rng (k + 4) * 30, ast_y = y, ast_char = char\<rparr>,
               k + 5)
         else
           let k1 = (if centerBias < 1 then k + 2 else k + 1);
               y = minY + rng k1 * (maxY - minY)
           in (\<lparr>ast_x = real_of_int WIDTH + rng (k1 + 1) * 30, ast_y = y, ast_char = char\<rparr>,
               k1 + 2))"

text \<open>\<open>generateStars(count, colors)\<close>: \<open>Array.from\<close> builds the stars in index order, three
  random values each (x, y, colour).\<close>

definition generateStars :: "(nat \<Rightarrow> real) \<Rightarrow> nat \<Rightarrow> nat \<Rightarrow> nat list \<Rightarrow> Star list \<times> nat" where
  "generateStars rng k count colors =
     (map (\<lambda>j. \<lparr>star_x = rng (k + 3 * j) * real_of_int WIDTH,
                 star_y = rng (k + 3 * j + 1) * real_of_int HEIGHT,
                 star_color = pick colors (rng (k + 3 * j + 2))\<rparr>) [0..<count],
      k + 3 * count)"

text \<open>\<open>scrollStars(stars, speed)\<close>: a star that leaves on the left re-enters at \<open>WIDTH\<close>
  with a new random row.\<close>

fun scrollStars :: "(nat \<Rightarrow> real) \<Rightarrow> nat \<Rightarrow> Star list \<Rightarrow> real \<Rightarrow> Star list \<times> nat" where
  "scrollStars rng k [] speed = ([], k)"
| "scrollStars rng k (star # rest) speed =
     (let x' = star_x star - speed;
          (star', k1) =
            (if x' < 0
             then (star\<lparr>star_x := real_of_int WIDTH, star_y := rng k * real_of_int HEIGHT\<rparr>, k + 1)
             else (star\<lparr>star_x := x'\<rparr>, k));
          (rest', k2) = scrollStars rng k1 rest speed
      in (star' # rest', k2))"

text \<open>
  \<open>resetGame(state)\<close>. \<open>state.asteroids.length = ASTEROIDS_START\<close> truncates an array of
  two or more asteroids to two; \<open>forEach\<close> then overwrites each of them with a new
  asteroid. On a shorter array the assignment to \<open>length\<close> leaves holes, which \<open>forEach\<close>
  skips: the list of the model then keeps the asteroids that exist (\<open>take\<close> does both),
  and \<open>updateUser\<close> below accounts for the holes.
\<close>

fun reassign :: "(nat \<Rightarrow> real) \<Rightarrow> nat \<Rightarrow> Asteroid list \<Rightarrow> Asteroid list \<times> nat" where
  "reassign rng k [] = ([], k)"
| "reassign rng k (a # rest) =
     (let (a', k1) = createAsteroid rng k 0;
          (rest', k2) = reassign rng k1 rest
      in (a' # rest', k2))"

definition resetGame :: "(nat \<Rightarrow> real) \<Rightarrow> nat \<Rightarrow> SpaceUserData \<Rightarrow> SpaceUserData \<times> nat" where
  "resetGame rng k state =
     (let (asts, k') = reassign rng k (take (nat ASTEROIDS_START) (asteroids state))
      in (state\<lparr>shipX := 10, shipY := real_of_int HEIGHT / 2, score := 0, lives := 3,
                invincibilityFrames := 0, gameOver := False, asteroids := asts\<rparr>, k'))"

section \<open>The asteroid loop of updateUser\<close>

text \<open>
  One iteration of \<open>for (const asteroid of state.asteroids)\<close>, for the asteroid at index
  \<open>i\<close>. \<open>Object.assign(asteroid, createAsteroid(..))\<close> overwrites all three fields of
  the element, so it is the replacement of the element at \<open>i\<close>. \<open>recycle\<close> is the part
  after the collision block (which the \<open>continue\<close> of a survived hit skips).
\<close>

definition recycle :: "(nat \<Rightarrow> real) \<Rightarrow> nat \<Rightarrow> nat \<Rightarrow> SpaceUserData \<Rightarrow> SpaceUserData \<times> nat" where
  "recycle rng k i state =
     (if ast_x (asteroids state ! i) < - 2 then
        let (a', k1) = createAsteroid rng k (score state);
            s1 = state\<lparr>asteroids := (asteroids state)[i := a'], score := score state + 1\<rparr>;
            targetCount = min ASTEROIDS_MAX (ASTEROIDS_START + score s1 div ASTEROIDS_PER_SCORE)
        in if int (length (asteroids s1)) < targetCount then
             let (b, k2) = createAsteroid rng k1 (score s1)
             in (s1\<lparr>asteroids := asteroids s1 @ [b]\<rparr>, k2)
           else (s1, k1)
      else (state, k))"

definition hits :: "SpaceUserData \<Rightarrow> Asteroid \<Rightarrow> bool" where
  "hits state asteroid =
     (let shipGridX = \<lfloor>shipX state\<rfloor>;
          shipGridY = \<lfloor>shipY state\<rfloor>;
          asteroidGridX = \<lfloor>ast_x asteroid\<rfloor>;
          asteroidGridY = \<lfloor>ast_y asteroid\<rfloor>;
          hitBody = (asteroidGridY = shipGridY \<and> asteroidGridX \<ge> shipGridX
                     \<and> asteroidGridX \<le> shipGridX + 2);
          hitWings = ((asteroidGridY = shipGridY - 1 \<or> asteroidGridY = shipGridY + 1)
                      \<and> asteroidGridX = shipGridX + 1)
      in hitBody \<or> hitWings)"

definition asteroidBody :: "(nat \<Rightarrow> real) \<Rightarrow> nat \<Rightarrow> nat \<Rightarrow> SpaceUserData \<Rightarrow> SpaceUserData \<times> nat" where
  "asteroidBody rng k i state =
     (let a = asteroids state ! i;
          a1 = a\<lparr>ast_x := ast_x a - SPEED_ASTEROID\<rparr>;
          s1 = state\<lparr>asteroids := (asteroids state)[i := a1]\<rparr>
      in if hits s1 a1 \<and> invincibilityFrames s1 \<le> 0 then
           let s2 = s1\<lparr>lives := lives s1 - 1\<rparr>
           in if lives s2 \<le> 0 then recycle rng k i (s2\<lparr>gameOver := True\<rparr>)
              else
                let s3 = s2\<lparr>invincibilityFrames := TICK_RATE\<rparr>;
                    (a', k1) = createAsteroid rng k (score s3)
                in (s3\<lparr>asteroids := (asteroids s3)[i := a']\<rparr>, k1)
         else recycle rng k i s1)"

text \<open>
  The loop itself. The array iterator reads \<open>length\<close> afresh on every step, so an asteroid
  pushed by an earlier iteration is visited in the same tick. The body is only entered
  for \<open>i\<close> inside the list.
\<close>

function asteroidLoop :: "(nat \<Rightarrow> real) \<Rightarrow> nat \<Rightarrow> nat \<Rightarrow> SpaceUserData \<Rightarrow> SpaceUserData \<times> nat" where
  "asteroidLoop rng k i state =
     (if i < length (asteroids state) then
        (case asteroidBody rng k i state of (s', k') \<Rightarrow> asteroidLoop rng k' (Suc i) s')
      else (state, k))"
  by pat_completeness auto
termination
proof (relation "measure (\<lambda>(rng, k, i, state).
         2 * max (length (asteroids state)) 10 - length (asteroids state) - i)")
  show "wf (measure (\<lambda>(rng, k, i, state).
         2 * max (length (asteroids state)) 10 - length (asteroids state) - i))"
    by simp
next
  fix rng :: "nat \<Rightarrow> real" and k i k' :: nat and state s' :: SpaceUserData
  assume inside: "i < length (asteroids state)"
    and body: "(s', k') = asteroidBody rng k i state"
  have len: "length (asteroids s') = length (asteroids state)
      \<or> (length (asteroids s') = Suc (length (asteroids state)) \<and> length (asteroids state) < 10)"
    using body
    by (auto simp: asteroidBody_def recycle_def Let_def ASTEROIDS_MAX_def
             split: if_splits prod.splits)
  then show "((rng, k', Suc i, s'), (rng, k, i, state))
      \<in> measure (\<lambda>(rng, k, i, state).
           2 * max (length (asteroids state)) 10 - length (asteroids state) - i)"
    using inside by auto
qed

section \<open>Rendering\<close>

text \<open>
  Strings. The source draws the hearts with the one-code-unit string U+2665, which does
  not fit the 8-bit characters of \<open>string\<close>; the model stands for it with one reserved
  character, so that lengths count code units as in JavaScript.
  \<open>String.prototype.repeat\<close> raises \<open>RangeError\<close> on a negative count.
\<close>

definition heart :: string where
  "heart = [CHR 0x03]"

definition js_repeat :: "string \<Rightarrow> int \<Rightarrow> error + string" where
  "js_repeat s n = (if n < 0 then Inl RangeError else Inr (concat (replicate (nat n) s)))"

fun showNat :: "nat \<Rightarrow> string" where
  "showNat n =
     (if n < 10 then [char_of (48 + n)] else showNat (n div 10) @ [char_of (48 + n mod 10)])"

definition showInt :: "int \<Rightarrow> string" where
  "showInt i = (if i < 0 then CHR ''-'' # showNat (nat (- i)) else showNat (nat i))"

definition renderStars :: "layer \<Rightarrow> Star list \<Rightarrow> commit" where
  "renderStars lyr stars =
     (lyr, [DotCloudMultiColor
              (map (\<lambda>star. \<lparr>posX = \<lfloor>star_x star\<rfloor>, posY = \<lfloor>star_y star\<rfloor>,
                              charCode = Some ''.'', fgColorCode = star_color star,
                              bgColorCode = TRANSPARENT\<rparr>) stars)])"

definition renderGame :: "SpaceUserData \<Rightarrow> commit" where
  "renderGame state =
     (let asteroidDots =
            map (\<lambda>a. \<lparr>posX = \<lfloor>ast_x a\<rfloor>, posY = \<lfloor>ast_y a\<rfloor>, charCode = ast_char a,
                       fgColorCode = Some COLOR_ASTEROID, bgColorCode = TRANSPARENT\<rparr>)
              (asteroids state);
          shipColor =
            (if gameOver state then COLOR_GAMEOVER
             else if invincibilityFrames state > 0 then
               (if (invincibilityFrames state div 5) mod 2 = 0 then COLOR_GAMEOVER
                else COLOR_SHIP)
             else COLOR_SHIP)
      in (GameLayer,
          [DotCloudMultiColor asteroidDots,
           Sprite \<lfloor>shipX state\<rfloor> (\<lfloor>shipY state\<rfloor> - 1) 0 shipColor TRANSPARENT]))"

text \<open>\<open>renderUI\<close> builds its orders before it touches the layer, so a \<open>RangeError\<close> of
  \<open>repeat\<close> leaves the UI layer without a commit.\<close>

definition renderUI :: "SpaceUserData \<Rightarrow> error + commit" where
  "renderUI state =
     (case js_repeat heart (lives state) of
        Inl e \<Rightarrow> Inl e
      | Inr red \<Rightarrow>
          (case js_repeat heart (3 - lives state) of
             Inl e \<Rightarrow> Inl e
           | Inr gray \<Rightarrow>
               Inr (UiLayer,
                    [Text 1 0 ''SPACE DEMO'' COLOR_WHITE COLOR_DEEP_SPACE,
                     Text 1 1 red COLOR_GAMEOVER TRANSPARENT,
                     Text (1 + lives state) 1 gray COLOR_LOST_HEART TRANSPARENT,
                     Text (WIDTH - 11) 0 (''Score: '' @ showInt (score state))
                       COLOR_GOLD COLOR_DEEP_SPACE]
                    @ (if gameOver state then
                         [Text 22 8 ''GAME OVER!'' COLOR_GAMEOVER COLOR_DEEP_SPACE,
                          Text 17 10 ''Press SPACE to restart'' COLOR_WHITE COLOR_DEEP_SPACE]
                       else
                         [Text 1 (HEIGHT - 1) ''Avoid asteroids! [WASD] or Stick''
                            COLOR_DIM_STAR TRANSPARENT]))))"

text \<open>\<open>renderAll\<close>: the commits made, in order, and the exception that ended it, if any.\<close>

definition renderAll :: "SpaceUserData \<Rightarrow> commit list \<times> error option" where
  "renderAll state =
     (let done = [renderStars StarLayerFar (starsFar state),
                  renderStars StarLayerNear (starsNear state),
                  renderGame state]
      in case renderUI state of
           Inl e \<Rightarrow> (done, Some e)
         | Inr c \<Rightarrow> (done @ [c], None))"

section \<open>initUser and updateUser\<close>

fun createAsteroids :: "(nat \<Rightarrow> real) \<Rightarrow> nat \<Rightarrow> nat \<Rightarrow> int \<Rightarrow> Asteroid list \<times> nat" where
  "createAsteroids rng k 0 sc = ([], k)"
| "createAsteroids rng k (Suc n) sc =
     (let (a, k1) = createAsteroid rng k sc;
          (rest, k2) = createAsteroids rng k1 n sc
      in (a # rest, k2))"

text \<open>\<open>initUser\<close>: the game state it stores in \<open>user.data\<close>. The layers, the display and the
  input bindings it registers belong to the runtime and are not part of the record.\<close>

definition initUser :: "(nat \<Rightarrow> real) \<Rightarrow> nat \<Rightarrow> SpaceUserData \<times> nat" where
  "initUser rng k =
     (let (far, k1) = generateStars rng k 40 [COLOR_DIM_STAR, COLOR_MEDIUM_STAR];
          (near, k2) = generateStars rng k1 25 [COLOR_MEDIUM_STAR, COLOR_BRIGHT_STAR];
          (asts, k3) = createAsteroids rng k2 (nat ASTEROIDS_START) 0
      in (\<lparr>starsFar = far, starsNear = near, asteroids = asts, shipX = 10,
           shipY = real_of_int HEIGHT / 2, score = 0, lives = 3, invincibilityFrames = 0,
           gameOver = False\<rparr>, k3))"

text \<open>
  The first half of \<open>updateUser\<close>, up to the asteroid loop: the game-over gate (with the
  reset on Restart), the recovery timer, the ship movement and the star scrolling.
  \<open>None\<close> is the early \<open>return\<close> of the game-over branch; otherwise the result is the state
  and the random index with which the collision loop starts.
\<close>

definition beforeCollision ::
  "(nat \<Rightarrow> real) \<Rightarrow> nat \<Rightarrow> Input \<Rightarrow> SpaceUserData \<Rightarrow> (SpaceUserData \<times> nat) option" where
  "beforeCollision rng k user state =
     (if gameOver state \<and> \<not> getButtonJustPressed user ''Restart'' then None
      else
        let (s0, k0) = (if gameOver state then resetGame rng k state else (state, k));
            s1 = (if invincibilityFrames s0 > 0
                  then s0\<lparr>invincibilityFrames := invincibilityFrames s0 - 1\<rparr> else s0);
            moveX = getAxis user ''MoveX'';
            moveY = getAxis user ''MoveY'';
            s2 = s1\<lparr>shipX := max 1 (min 15 (shipX s1 + moveX * SPEED_SHIP))\<rparr>;
            s3 = s2\<lparr>shipY := max 2 (min (real_of_int (HEIGHT - 3)) (shipY s2 + moveY * SPEED_SHIP))\<rparr>;
            (far, k1) = scrollStars rng k0 (starsFar s3) SPEED_STARS_FAR;
            (near, k2) = scrollStars rng k1 (starsNear s3) SPEED_STARS_NEAR
        in Some (s3\<lparr>starsFar := far, starsNear := near\<rparr>, k2))"

text \<open>
  The result of one call of \<open>updateUser\<close>: the user data as the call leaves it (the record
  is mutated in place, so it keeps every change made before an exception), the next
  random index, the commits sent to the layers, and the exception the call ended with.
\<close>

record Outcome =
  data :: "SpaceUserData option"
  rngPos :: nat
  commits :: "commit list"
  raised :: "error option"

text \<open>
  \<open>updateUser\<close>. \<open>user.data\<close> may be undefined (\<open>None\<close>): the call returns at once.

  When a restart finds fewer than \<open>ASTEROIDS_START\<close> asteroids, the array has holes after
  \<open>resetGame\<close>: the loop handles the asteroid at index 0 if there is one, then reads
  \<open>undefined\<close> from the first hole and \<open>asteroid.x\<close> raises \<open>TypeError\<close> before anything is
  rendered. (The holes themselves are not elements of the list of the model; with random
  values in [0, 1) the asteroid at index 0 is new and far right, so nothing in its
  iteration reads the length of the array.)
\<close>

definition updateUser :: "(nat \<Rightarrow> real) \<Rightarrow> nat \<Rightarrow> Input \<Rightarrow> SpaceUserData option \<Rightarrow> Outcome" where
  "updateUser rng k user d =
     (case d of
        None \<Rightarrow> \<lparr>data = None, rngPos = k, commits = [], raised = None\<rparr>
      | Some state \<Rightarrow>
          (case beforeCollision rng k user state of
             None \<Rightarrow> \<lparr>data = Some state, rngPos = k, commits = [], raised = None\<rparr>
           | Some (s3, k2) \<Rightarrow>
               if gameOver state \<and> int (length (asteroids state)) < ASTEROIDS_START then
                 let (s4, k3) = (if asteroids s3 = [] then (s3, k2) else asteroidBody rng k2 0 s3)
                 in \<lparr>data = Some s4, rngPos = k3, commits = [], raised = Some TypeError\<rparr>
               else
                 let (s4, k3) = asteroidLoop rng k2 0 s3;
                     (cs, err) = renderAll s4
                 in \<lparr>data = Some s4, rngPos = k3, commits = cs, raised = err\<rparr>))"

text \<open>
  The states a user can be in: \<open>initUser\<close> followed by any number of \<open>updateUser\<close> calls.
  The environment keeps its contracts: \<open>Math.random()\<close> returns values in [0, 1) and the
  axes report values in [-1, 1]. Calls continue after a call that raised.
\<close>

definition valid_axes :: "Input \<Rightarrow> bool" where
  "valid_axes user = (\<forall>name. - 1 \<le> getAxis user name \<and> getAxis user name \<le> 1)"

inductive reachable :: "(nat \<Rightarrow> real) \<Rightarrow> SpaceUserData \<Rightarrow> nat \<Rightarrow> bool" where
  init: "valid_rng rng \<Longrightarrow> initUser rng k = (state, k') \<Longrightarrow> reachable rng state k'"
| tick: "reachable rng state k \<Longrightarrow> valid_axes user \<Longrightarrow>
         data (updateUser rng k user (Some state)) = Some state' \<Longrightarrow>
         rngPos (updateUser rng k user (Some state)) = k' \<Longrightarrow>
         reachable rng state' k'"

text \<open>A run of \<open>n\<close> ticks from \<open>initUser\<close>, with the input of tick \<open>t\<close> (counted from 0)
  given by \<open>users t\<close>.\<close>

fun run :: "(nat \<Rightarrow> real) \<Rightarrow> (nat \<Rightarrow> Input) \<Rightarrow> nat \<Rightarrow> SpaceUserData \<times> nat" where
  "run rng users 0 = initUser rng 0"
| "run rng users (Suc n) =
     (case run rng users n of
        (state, k) \<Rightarrow>
          (let out = updateUser rng k (users n) (Some state)
           in case data out of Some state' \<Rightarrow> (state', rngPos out) | None \<Rightarrow> (state, k)))"

section \<open>UTSPClient: the lifecycle effect of the React wrapper\<close>

text \<open>
  The component keeps three refs: the container \<open>div\<close>, the current \<open>ClientRuntime\<close>, and the
  dependency key with which it was initialised. The model holds them in one record,
  together with the number of runtimes constructed so far, which names the next one (it
  stands for the identity of the object \<open>new ClientRuntime(..)\<close> returns). \<open>ClientRuntime\<close>
  belongs to the external runtime; what the effect does to it (\<open>new\<close>, \<open>start\<close>, \<open>stop\<close>) and
  to the container (\<open>innerHTML = ""\<close>) is recorded as a list of events, in order.

  \<open>RendererType\<close> is declared outside this repository; the model takes the text a
  template literal renders it to. The props \<open>className\<close> and \<open>style\<close> are not read by the
  effect.
\<close>

record IApplication =
  constructorName :: string
  instanceId :: nat

record UTSPClientProps =
  application :: IApplication
  renderer :: string
  width :: int
  height :: int
  autoplay :: bool

record RuntimeOptions =
  mode :: string
  standaloneApplication :: IApplication
  optRenderer :: string
  optWidth :: int
  optHeight :: int
  optAutoplay :: bool

datatype clientEvent =
    Stop nat
  | ClearContainer
  | Construct nat RuntimeOptions
  | Start nat

record ClientRefs =
  containerMounted :: bool
  runtimeRef :: "nat option"
  initializedWithKeyRef :: "string option"
  constructed :: nat

definition depsKey :: "UTSPClientProps \<Rightarrow> string" where
  "depsKey p =
     constructorName (application p) @ ''-'' @ renderer p @ ''-'' @ showInt (width p) @ ''-''
     @ showInt (height p) @ ''-'' @ (if autoplay p then ''true'' else ''false'')"

definition runtimeOptions :: "UTSPClientProps \<Rightarrow> RuntimeOptions" where
  "runtimeOptions p =
     \<lparr>mode = ''standalone'', standaloneApplication = application p, optRenderer = renderer p,
      optWidth = width p, optHeight = height p, optAutoplay = autoplay p\<rparr>"

text \<open>The body of the \<open>useEffect\<close> callback: the refs it leaves, the events it causes, and
  whether it returned its cleanup function (the two early returns do not).\<close>

definition lifecycleEffect ::
  "UTSPClientProps \<Rightarrow> ClientRefs \<Rightarrow> ClientRefs \<times> clientEvent list \<times> bool" where
  "lifecycleEffect p refs =
     (if \<not> containerMounted refs then (refs, [], False)
      else if initializedWithKeyRef refs = Some (depsKey p) then (refs, [], False)
      else
        let stopped = (case runtimeRef refs of Some r \<Rightarrow> [Stop r] | None \<Rightarrow> []);
            runtime = constructed refs
        in (refs\<lparr>runtimeRef := Some runtime, initializedWithKeyRef := Some (depsKey p),
                  constructed := Suc (constructed refs)\<rparr>,
            stopped @ [ClearContainer, Construct runtime (runtimeOptions p), Start runtime],
            True))"

text \<open>The cleanup function the effect returns; it reads the refs when it runs.\<close>

definition lifecycleCleanup :: "ClientRefs \<Rightarrow> ClientRefs \<times> clientEvent list" where
  "lifecycleCleanup refs =
     (refs\<lparr>runtimeRef := None, initializedWithKeyRef := None\<rparr>,
      (case runtimeRef refs of Some r \<Rightarrow> [Stop r] | None \<Rightarrow> []))"

text \<open>
  The sequence the effect's own comment names for React Strict Mode, mount, unmount,
  mount: the effect, the cleanup it returned, and the effect again with the same props.
\<close>

definition strictModeMount :: "UTSPClientProps \<Rightarrow> ClientRefs \<Rightarrow> ClientRefs \<times> clientEvent list" where
  "strictModeMount p refs =
     (case lifecycleEffect p refs of
        (refs1, events1, cleanup) \<Rightarrow>
          (case (if cleanup then lifecycleCleanup refs1 else (refs1, [])) of
             (refs2, events2) \<Rightarrow>
               (case lifecycleEffect p refs2 of
                  (refs3, events3, _) \<Rightarrow> (refs3, events1 @ events2 @ events3))))"

section \<open>Auxiliary definitions for the proofs\<close>

text \<open>A random source that always returns 0, a user who touches nothing, and a user who
  presses Restart.\<close>

definition rng0 :: "nat \<Rightarrow> real" where
  "rng0 = (\<lambda>_. 0)"

definition idle :: Input where
  "idle = \<lparr>getAxis = (\<lambda>_. 0), getButtonJustPressed = (\<lambda>_. False)\<rparr>"

definition restarting :: Input where
  "restarting = \<lparr>getAxis = (\<lambda>_. 0), getButtonJustPressed = (\<lambda>name. name = ''Restart'')\<rparr>"

text \<open>A lost game: no lives left, two asteroids, one of them in the ship's body cells.\<close>

definition lostGame :: SpaceUserData where
  "lostGame = \<lparr>starsFar = [], starsNear = [],
                asteroids = [\<lparr>ast_x = 12, ast_y = 10, ast_char = Some ''o''\<rparr>,
                             \<lparr>ast_x = 40, ast_y = 3, ast_char = Some ''O''\<rparr>],
                shipX = 10, shipY = 10, score = 7, lives = 0, invincibilityFrames = 0,
                gameOver = True\<rparr>"

text \<open>Where a new asteroid can be: off-screen right, inside the playable rows. An asteroid
  is off-screen left once its move takes it below \<open>-2\<close>.\<close>

definition fresh :: "Asteroid \<Rightarrow> bool" where
  "fresh a = (real_of_int WIDTH \<le> ast_x a \<and> ast_x a < real_of_int WIDTH + 30
              \<and> 2 \<le> ast_y a \<and> ast_y a \<le> real_of_int (HEIGHT - 3))"

definition offscreen :: "Asteroid \<Rightarrow> bool" where
  "offscreen a = (ast_x a - SPEED_ASTEROID < - 2)"

definition loop_inv :: "SpaceUserData \<Rightarrow> nat \<Rightarrow> SpaceUserData \<Rightarrow> bool" where
  "loop_inv s0 i t =
     (shipX t = shipX s0 \<and> length (asteroids s0) \<le> length (asteroids t)
      \<and> (\<forall>j. i \<le> j \<and> j < length (asteroids s0) \<longrightarrow> asteroids t ! j = asteroids s0 ! j)
      \<and> (\<forall>j. i \<le> j \<and> length (asteroids s0) \<le> j \<and> j < length (asteroids t)
             \<longrightarrow> fresh (asteroids t ! j))
      \<and> (\<forall>j. j < i \<and> j < length (asteroids s0) \<and> offscreen (asteroids s0 ! j)
             \<longrightarrow> fresh (asteroids t ! j))
      \<and> score t = score s0 + int (length (filter offscreen (take i (asteroids s0))))
      \<and> length (asteroids t)
            \<le> length (asteroids s0) + length (filter offscreen (take i (asteroids s0))))"

text \<open>One \<open>updateUser\<close> call without its rendering: the user data and the random index it
  leaves behind.\<close>

definition advance :: "(nat \<Rightarrow> real) \<Rightarrow> nat \<Rightarrow> Input \<Rightarrow> SpaceUserData \<Rightarrow> SpaceUserData \<times> nat" where
  "advance rng k user state =
     (case beforeCollision rng k user state of
        None \<Rightarrow> (state, k)
      | Some (s3, k2) \<Rightarrow>
          if gameOver state \<and> int (length (asteroids state)) < ASTEROIDS_START
          then (if asteroids s3 = [] then (s3, k2) else asteroidBody rng k2 0 s3)
          else asteroidLoop rng k2 0 s3)"

text \<open>A running game with one asteroid about to leave the screen, and the same game one
  idle tick later under \<open>rng0\<close>.\<close>

definition driftingGame :: SpaceUserData where
  "driftingGame = \<lparr>starsFar = [], starsNear = [],
                    asteroids = [\<lparr>ast_x = - 2, ast_y = 5, ast_char = Some ''0''\<rparr>,
                                 \<lparr>ast_x = 30, ast_y = 9, ast_char = Some ''O''\<rparr>],
                    shipX = 10, shipY = 10, score = 4, lives = 2, invincibilityFrames = 0,
                    gameOver = False\<rparr>"

definition driftedGame :: SpaceUserData where
  "driftedGame = \<lparr>starsFar = [], starsNear = [],
                   asteroids = [\<lparr>ast_x = 60, ast_y = 2, ast_char = Some ''o''\<rparr>,
                                \<lparr>ast_x = 29, ast_y = 9, ast_char = Some ''O''\<rparr>,
                                \<lparr>ast_x = 59, ast_y = 2, ast_char = Some ''o''\<rparr>],
                   shipX = 10, shipY = 10, score = 5, lives = 2, invincibilityFrames = 0,
                   gameOver = False\<rparr>"

text \<open>
  The game without its star fields. Under \<open>rng0\<close> every new asteroid is \<open>zeroAsteroid\<close>
  whatever the random index, so the stars (which only consume random values) do not
  influence the rest of the state; \<open>gameRun\<close> is \<open>run\<close> on that projection.
\<close>

definition zeroAsteroid :: Asteroid where
  "zeroAsteroid = \<lparr>ast_x = 60, ast_y = 2, ast_char = Some ''o''\<rparr>"

definition game :: "SpaceUserData \<Rightarrow> SpaceUserData" where
  "game s = s\<lparr>starsFar := [], starsNear := []\<rparr>"

fun gameRun :: "(nat \<Rightarrow> Input) \<Rightarrow> nat \<Rightarrow> SpaceUserData" where
  "gameRun users 0 = game (fst (initUser rng0 0))"
| "gameRun users (Suc n) = fst (advance rng0 0 (users n) (gameRun users n))"

text \<open>
  The pilot of the double-hit run: flies to the top right corner of the playable area
  (ticks 0 to 7), steps two rows down while the first recycled asteroid passes (ticks 83
  and 84) and back up (ticks 88 and 89); otherwise touches nothing.
\<close>

definition pilot :: "nat \<Rightarrow> Input" where
  "pilot t =
     \<lparr>getAxis = (\<lambda>name. if name = ''MoveX'' then (if t < 5 then 1 else 0)
                         else if name = ''MoveY''
                         then (if t < 8 \<or> t = 88 \<or> t = 89 then - 1
                               else if t = 83 \<or> t = 84 then 1 else 0)
                         else 0),
      getButtonJustPressed = (\<lambda>_. False)\<rparr>"

definition idling :: "nat \<Rightarrow> Input" where
  "idling t = idle"

text \<open>The game from tick \<open>t\<close> on, for \<open>n\<close> ticks, and a star-less state whose asteroids are
  all \<open>o\<close> on row 2: the states the two runs below pass through.\<close>

fun gameFrom :: "(nat \<Rightarrow> Input) \<Rightarrow> nat \<Rightarrow> nat \<Rightarrow> SpaceUserData \<Rightarrow> SpaceUserData" where
  "gameFrom users t 0 g = g"
| "gameFrom users t (Suc n) g = gameFrom users (Suc t) n (fst (advance rng0 0 (users t) g))"

definition row2 :: "real list \<Rightarrow> real \<Rightarrow> real \<Rightarrow> int \<Rightarrow> int \<Rightarrow> int \<Rightarrow> bool \<Rightarrow> SpaceUserData" where
  "row2 xs sx sy sc lv fr go =
     \<lparr>starsFar = [], starsNear = [],
      asteroids = map (\<lambda>x. \<lparr>ast_x = x, ast_y = 2, ast_char = Some ''o''\<rparr>) xs,
      shipX = sx, shipY = sy, score = sc, lives = lv, invincibilityFrames = fr,
      gameOver = go\<rparr>"

text \<open>A running game in its recovery period with an asteroid about to enter the ship's nose
  cell, the state in which that tick's collision loop starts, and the state after it.\<close>

definition shielded :: "int \<Rightarrow> real \<Rightarrow> SpaceUserData" where
  "shielded frames ax =
     \<lparr>starsFar = [], starsNear = [],
      asteroids = [\<lparr>ast_x = ax, ast_y = 10, ast_char = Some ''O''\<rparr>],
      shipX = 10, shipY = 10, score = 0, lives = 2, invincibilityFrames = frames,
      gameOver = False\<rparr>"

text \<open>A lost game whose asteroid list is empty (not a state that \<open>initUser\<close> and
  \<open>updateUser\<close> produce, but a value of the record type).\<close>

definition emptyLost :: SpaceUserData where
  "emptyLost = \<lparr>starsFar = [], starsNear = [], asteroids = [], shipX = 10, shipY = 10,
                 score = 0, lives = 0, invincibilityFrames = 0, gameOver = True\<rparr>"

text \<open>The props \<open>App.tsx\<close> passes (with the defaults of the component), the same with
  another width, the refs of a component whose \<open>div\<close> is mounted, respectively not, and
  the refs once the effect has run with \<open>appProps\<close>.\<close>

definition appProps :: UTSPClientProps where
  "appProps = \<lparr>application = \<lparr>constructorName = ''SpaceDemo'', instanceId = 0\<rparr>,
               renderer = ''TerminalGL'', width = 60, height = 20, autoplay = True\<rparr>"

definition wideProps :: UTSPClientProps where
  "wideProps = appProps\<lparr>width := 120\<rparr>"

definition mountedRefs :: ClientRefs where
  "mountedRefs = \<lparr>containerMounted = True, runtimeRef = None, initializedWithKeyRef = None,
                  constructed = 0\<rparr>"

definition unmountedRefs :: ClientRefs where
  "unmountedRefs = mountedRefs\<lparr>containerMounted := False\<rparr>"

definition runningRefs :: ClientRefs where
  "runningRefs = \<lparr>containerMounted = True, runtimeRef = Some 0,
                  initializedWithKeyRef = Some (depsKey appProps), constructed = 1\<rparr>"

section \<open>Basic facts\<close>

lemmas game_consts = WIDTH_def HEIGHT_def ASTEROIDS_START_def ASTEROIDS_MAX_def
  ASTEROIDS_PER_SCORE_def DIFFICULTY_FULL_AT_def TICK_RATE_def SPEED_SHIP_def SPEED_ASTEROID_def
  SPEED_STARS_FAR_def SPEED_STARS_NEAR_def

declare asteroidLoop.simps [simp del]

lemma js_repeat_heart:
  "0 \<le> n \<Longrightarrow> js_repeat heart n = Inr (replicate (nat n) (CHR 0x03))"
  by (induction "nat n" arbitrary: n)
     (simp_all add: js_repeat_def heart_def replicate_append_same
        flip: replicate_Suc)

lemma rng_bounds: "valid_rng rng \<Longrightarrow> 0 \<le> rng n \<and> rng n < 1"
  by (simp add: valid_rng_def)

lemma createAsteroid_fresh:
  assumes "valid_rng rng"
  shows "fresh (fst (createAsteroid rng k sc))"
proof -
  note b = rng_bounds [OF assms]
  show ?thesis
    using b [of "Suc k"] b [of "Suc (Suc k)"] b [of "Suc (Suc (Suc k))"] b [of "k + 3"] b [of "k + 4"]
    by (simp add: createAsteroid_def fresh_def Let_def game_consts)
qed

subsection \<open>Invariants of the asteroid loop\<close>

lemma asteroidLoop_rule:
  assumes "I i k s"
    and step: "\<And>i k s. I i k s \<Longrightarrow> i < length (asteroids s) \<Longrightarrow>
                 I (Suc i) (snd (asteroidBody rng k i s)) (fst (asteroidBody rng k i s))"
  shows "\<exists>j. length (asteroids (fst (asteroidLoop rng k i s))) \<le> j
             \<and> I j (snd (asteroidLoop rng k i s)) (fst (asteroidLoop rng k i s))"
  using assms
proof (induction rng k i s rule: asteroidLoop.induct)
  case (1 rng k i state)
  note inv = "1.prems" (1) and st = "1.prems" (2)
  show ?case
  proof (cases "i < length (asteroids state)")
    case True
    obtain s' k' where b: "asteroidBody rng k i state = (s', k')"
      by (cases "asteroidBody rng k i state")
    have "I (Suc i) k' s'"
      using st [OF inv True] b by simp
    from "1.IH" [OF True b [symmetric] this st] show ?thesis
      using True b by (simp add: asteroidLoop.simps [of rng k i state])
  next
    case False
    then show ?thesis
      using inv by (auto simp: asteroidLoop.simps [of rng k i state] intro!: exI [of _ i])
  qed
qed

lemma asteroidLoop_preserves:
  assumes "P s"
    and step: "\<And>i k s. P s \<Longrightarrow> i < length (asteroids s) \<Longrightarrow> P (fst (asteroidBody rng k i s))"
  shows "P (fst (asteroidLoop rng k i s))"
proof -
  have "\<exists>j. length (asteroids (fst (asteroidLoop rng k i s))) \<le> j
             \<and> (\<lambda>i k s. P s) j (snd (asteroidLoop rng k i s)) (fst (asteroidLoop rng k i s))"
    by (rule asteroidLoop_rule [where I = "\<lambda>i k s. P s"]) (use assms in auto)
  then show ?thesis by simp
qed

lemma recycle_frame:
  "shipX (fst (recycle rng k i s)) = shipX s"
  "shipY (fst (recycle rng k i s)) = shipY s"
  "starsFar (fst (recycle rng k i s)) = starsFar s"
  "starsNear (fst (recycle rng k i s)) = starsNear s"
  "lives (fst (recycle rng k i s)) = lives s"
  "gameOver (fst (recycle rng k i s)) = gameOver s"
  "invincibilityFrames (fst (recycle rng k i s)) = invincibilityFrames s"
  by (simp_all add: recycle_def Let_def split_beta)

lemma asteroidBody_frame:
  "shipX (fst (asteroidBody rng k i s)) = shipX s"
  "shipY (fst (asteroidBody rng k i s)) = shipY s"
  "starsFar (fst (asteroidBody rng k i s)) = starsFar s"
  "starsNear (fst (asteroidBody rng k i s)) = starsNear s"
  by (simp_all add: asteroidBody_def Let_def split_beta recycle_frame)

lemma asteroidLoop_frame:
  "shipX (fst (asteroidLoop rng k i s)) = shipX s"
  "shipY (fst (asteroidLoop rng k i s)) = shipY s"
  "starsFar (fst (asteroidLoop rng k i s)) = starsFar s"
  "starsNear (fst (asteroidLoop rng k i s)) = starsNear s"
  by (rule asteroidLoop_preserves [where P = "\<lambda>t. shipX t = shipX s"], simp, simp add: asteroidBody_frame)
     (rule asteroidLoop_preserves [where P = "\<lambda>t. shipY t = shipY s"], simp, simp add: asteroidBody_frame,
      rule asteroidLoop_preserves [where P = "\<lambda>t. starsFar t = starsFar s"], simp, simp add: asteroidBody_frame,
      rule asteroidLoop_preserves [where P = "\<lambda>t. starsNear t = starsNear s"], simp, simp add: asteroidBody_frame)

lemma recycle_asteroids:
  assumes "valid_rng rng" and "i < length (asteroids s)"
  shows "if ast_x (asteroids s ! i) < - 2
         then \<exists>a' tl. asteroids (fst (recycle rng k i s)) = (asteroids s)[i := a'] @ tl
                \<and> fresh a' \<and> list_all fresh tl \<and> length tl \<le> 1
                \<and> (tl \<noteq> [] \<longrightarrow> length (asteroids s) < 10)
                \<and> score (fst (recycle rng k i s)) = score s + 1
         else fst (recycle rng k i s) = s"
proof (cases "ast_x (asteroids s ! i) < - 2")
  case False
  then show ?thesis by (simp add: recycle_def)
next
  case True
  let ?a = "fst (createAsteroid rng k (score s))"
  let ?k1 = "snd (createAsteroid rng k (score s))"
  let ?b = "fst (createAsteroid rng ?k1 (score s + 1))"
  let ?push = "int (length (asteroids s))
                 < min ASTEROIDS_MAX (ASTEROIDS_START + (score s + 1) div ASTEROIDS_PER_SCORE)"
  let ?tl = "if ?push then [?b] else []"
  have eq: "asteroids (fst (recycle rng k i s)) = (asteroids s)[i := ?a] @ ?tl"
    and sc: "score (fst (recycle rng k i s)) = score s + 1"
    using True by (simp_all add: recycle_def Let_def split_beta)
  have "fresh ?a" "list_all fresh ?tl" "length ?tl \<le> 1" "?tl \<noteq> [] \<longrightarrow> length (asteroids s) < 10"
    using createAsteroid_fresh [OF assms(1)] by (simp_all add: ASTEROIDS_MAX_def)
  with eq sc True show ?thesis by (simp del: min_less_iff_conj) blast
qed

lemma hits_onscreen:
  assumes "hits s a" and "1 \<le> shipX s"
  shows "1 \<le> ast_x a"
proof -
  have "\<lfloor>shipX s\<rfloor> \<le> \<lfloor>ast_x a\<rfloor>" using assms(1) by (auto simp: hits_def Let_def)
  moreover have "1 \<le> \<lfloor>shipX s\<rfloor>" using assms(2) by simp
  ultimately have "1 \<le> \<lfloor>ast_x a\<rfloor>" by (rule order_trans [rotated])
  then show ?thesis by simp
qed

lemma asteroidBody_asteroids:
  assumes rng: "valid_rng rng" and i: "i < length (asteroids s)" and ship: "1 \<le> shipX s"
  shows "\<exists>a' tl. asteroids (fst (asteroidBody rng k i s)) = (asteroids s)[i := a'] @ tl
           \<and> list_all fresh tl \<and> length tl \<le> 1 \<and> (tl \<noteq> [] \<longrightarrow> length (asteroids s) < 10)
           \<and> (if offscreen (asteroids s ! i)
               then fresh a' \<and> score (fst (asteroidBody rng k i s)) = score s + 1
               else tl = [] \<and> score (fst (asteroidBody rng k i s)) = score s)"
proof -
  let ?a1 = "(asteroids s ! i)\<lparr>ast_x := ast_x (asteroids s ! i) - SPEED_ASTEROID\<rparr>"
  let ?s1 = "s\<lparr>asteroids := (asteroids s)[i := ?a1]\<rparr>"
  let ?s2 = "?s1\<lparr>lives := lives ?s1 - 1\<rparr>"
  have off: "offscreen (asteroids s ! i) \<longleftrightarrow> ast_x ?a1 < - 2"
    by (simp add: offscreen_def)
  consider (survive) "hits ?s1 ?a1" "invincibilityFrames s \<le> 0" "\<not> lives s - 1 \<le> 0"
    | (fatal) "hits ?s1 ?a1" "invincibilityFrames s \<le> 0" "lives s - 1 \<le> 0"
    | (miss) "\<not> (hits ?s1 ?a1 \<and> invincibilityFrames s \<le> 0)"
    by blast
  then show ?thesis
  proof cases
    case survive
    have "1 \<le> ast_x ?a1" using hits_onscreen [OF survive(1)] ship by simp
    then have "\<not> offscreen (asteroids s ! i)" using off by simp
    moreover have "asteroids (fst (asteroidBody rng k i s))
        = (asteroids s)[i := fst (createAsteroid rng k (score s))] @ []"
      and "score (fst (asteroidBody rng k i s)) = score s"
      using survive by (simp_all add: asteroidBody_def Let_def split_beta)
    ultimately show ?thesis
      by (intro exI [of _ "fst (createAsteroid rng k (score s))"] exI [of _ "[]"]) simp
  next
    case fatal
    let ?t = "?s2\<lparr>gameOver := True\<rparr>"
    have b: "fst (asteroidBody rng k i s) = fst (recycle rng k i ?t)"
      using fatal by (simp add: asteroidBody_def Let_def)
    have "i < length (asteroids ?t)" using i by simp
    from recycle_asteroids [OF rng this, of k] show ?thesis
      using i unfolding b off by (auto split: if_splits)
  next
    case miss
    have b: "fst (asteroidBody rng k i s) = fst (recycle rng k i ?s1)"
      using miss by (auto simp: asteroidBody_def Let_def)
    have "i < length (asteroids ?s1)" using i by simp
    from recycle_asteroids [OF rng this, of k] show ?thesis
      using i unfolding b off by (auto split: if_splits)
  qed
qed

lemma fresh_onscreen: "fresh a \<Longrightarrow> \<not> offscreen a"
  by (simp add: fresh_def offscreen_def game_consts)

lemma loop_inv_step:
  assumes rng: "valid_rng rng" and ship: "1 \<le> shipX s0"
    and inv: "loop_inv s0 i t" and i: "i < length (asteroids t)"
  shows "loop_inv s0 (Suc i) (fst (asteroidBody rng k i t))"
proof -
  let ?t1 = "fst (asteroidBody rng k i t)"
  let ?n = "length (asteroids s0)"
  have ship': "1 \<le> shipX t" using inv ship by (simp add: loop_inv_def)
  from asteroidBody_asteroids [OF rng i ship', of k]
  obtain a' tl where eq: "asteroids ?t1 = (asteroids t)[i := a'] @ tl"
    and tl: "list_all fresh tl" "length tl \<le> 1"
    and sc: "if offscreen (asteroids t ! i)
             then fresh a' \<and> score ?t1 = score t + 1 else tl = [] \<and> score ?t1 = score t"
    by blast
  have len: "?n \<le> length (asteroids t)" using inv by (simp add: loop_inv_def)
  have old: "asteroids ?t1 ! j = asteroids t ! j" if "j < length (asteroids t)" "j \<noteq> i" for j
    using that by (simp add: eq nth_append)
  have new: "fresh (asteroids ?t1 ! j)" if "length (asteroids t) \<le> j" "j < length (asteroids ?t1)" for j
  proof -
    have "j - length (asteroids t) < length tl" using that by (simp add: eq)
    then have "fresh (tl ! (j - length (asteroids t)))"
      using tl(1) by (simp add: list_all_length)
    then show ?thesis using that by (simp add: eq nth_append)
  qed
  have at_i: "asteroids ?t1 ! i = a'" using i by (simp add: eq nth_append)
  have c1: "shipX ?t1 = shipX s0" using inv by (simp add: asteroidBody_frame loop_inv_def)
  have c2: "?n \<le> length (asteroids ?t1)" using len by (simp add: eq)
  have c3: "asteroids ?t1 ! j = asteroids s0 ! j" if "Suc i \<le> j" "j < ?n" for j
  proof -
    have "asteroids t ! j = asteroids s0 ! j" using inv that by (simp add: loop_inv_def)
    then show ?thesis using old [of j] that len by simp
  qed
  have c4: "fresh (asteroids ?t1 ! j)" if "Suc i \<le> j" "?n \<le> j" "j < length (asteroids ?t1)" for j
  proof (cases "j < length (asteroids t)")
    case True
    then have "fresh (asteroids t ! j)" using inv that by (simp add: loop_inv_def)
    then show ?thesis using old [of j] True that by simp
  next
    case False
    then show ?thesis using new [of j] that by simp
  qed
  have c5: "fresh (asteroids ?t1 ! j)" if "j < Suc i" "j < ?n" "offscreen (asteroids s0 ! j)" for j
  proof (cases "j = i")
    case True
    have "asteroids t ! i = asteroids s0 ! i" using inv that True by (simp add: loop_inv_def)
    then have "fresh a'" using sc that True by (simp split: if_splits)
    then show ?thesis using at_i True by simp
  next
    case False
    then have "j < i" using that by simp
    then have "fresh (asteroids t ! j)" using inv that by (simp add: loop_inv_def)
    then show ?thesis using old [of j] False \<open>j < i\<close> i by simp
  qed
  have c6: "score ?t1 = score s0 + int (length (filter offscreen (take (Suc i) (asteroids s0))))"
  proof (cases "i < ?n")
    case True
    have same: "asteroids t ! i = asteroids s0 ! i" using inv True by (simp add: loop_inv_def)
    have "score t = score s0 + int (length (filter offscreen (take i (asteroids s0))))"
      using inv by (simp add: loop_inv_def)
    then show ?thesis using sc same True by (simp add: take_Suc_conv_app_nth split: if_splits)
  next
    case False
    then have "fresh (asteroids t ! i)" using inv i by (simp add: loop_inv_def)
    then have "\<not> offscreen (asteroids t ! i)" by (rule fresh_onscreen)
    moreover have "score t = score s0 + int (length (filter offscreen (take i (asteroids s0))))"
      using inv by (simp add: loop_inv_def)
    ultimately show ?thesis using sc False by simp
  qed
  have c7: "length (asteroids ?t1)
      \<le> ?n + length (filter offscreen (take (Suc i) (asteroids s0)))"
  proof (cases "i < ?n")
    case True
    have same: "asteroids t ! i = asteroids s0 ! i" using inv True by (simp add: loop_inv_def)
    have "length (asteroids t) \<le> ?n + length (filter offscreen (take i (asteroids s0)))"
      using inv by (simp add: loop_inv_def)
    then show ?thesis
      using sc same True tl(2) i by (simp add: eq take_Suc_conv_app_nth split: if_splits)
  next
    case False
    then have "fresh (asteroids t ! i)" using inv i by (simp add: loop_inv_def)
    then have "\<not> offscreen (asteroids t ! i)" by (rule fresh_onscreen)
    moreover have "length (asteroids t) \<le> ?n + length (filter offscreen (take i (asteroids s0)))"
      using inv by (simp add: loop_inv_def)
    ultimately show ?thesis using sc False by (simp add: eq)
  qed
  show ?thesis
    unfolding loop_inv_def using c1 c2 c3 c4 c5 c6 c7 by blast
qed

lemma asteroidLoop_recycles:
  assumes rng: "valid_rng rng" and ship: "1 \<le> shipX s0"
  shows "\<exists>j. length (asteroids (fst (asteroidLoop rng k 0 s0))) \<le> j
             \<and> loop_inv s0 j (fst (asteroidLoop rng k 0 s0))"
proof (rule asteroidLoop_rule [where I = "\<lambda>i k t. loop_inv s0 i t"])
  show "loop_inv s0 0 s0" by (auto simp: loop_inv_def)
next
  fix i k s
  assume "loop_inv s0 i s" "i < length (asteroids s)"
  then show "loop_inv s0 (Suc i) (fst (asteroidBody rng k i s))"
    by (rule loop_inv_step [OF rng ship])
qed

subsection \<open>One call of updateUser\<close>

lemma updateUser_advance:
  "data (updateUser rng k user (Some state)) = Some (fst (advance rng k user state))"
  "rngPos (updateUser rng k user (Some state)) = snd (advance rng k user state)"
  by (auto simp: updateUser_def advance_def Let_def split_beta split: option.splits)

lemma valid_rng0: "valid_rng rng0"
  by (simp add: valid_rng_def rng0_def)

lemma beforeCollision_ship:
  assumes "beforeCollision rng k user state = Some (s3, k2)"
  shows "1 \<le> shipX s3 \<and> shipX s3 \<le> 15 \<and> 2 \<le> shipY s3 \<and> shipY s3 \<le> real_of_int (HEIGHT - 3)"
  using assms
  by (auto simp: beforeCollision_def Let_def split_beta HEIGHT_def split: if_splits)

lemma beforeCollision_running:
  assumes "\<not> gameOver state"
  shows "\<exists>s3 k2. beforeCollision rng k user state = Some (s3, k2)
           \<and> asteroids s3 = asteroids state \<and> score s3 = score state
           \<and> lives s3 = lives state \<and> \<not> gameOver s3
           \<and> invincibilityFrames s3
               = (if 0 < invincibilityFrames state then invincibilityFrames state - 1
                  else invincibilityFrames state)"
  using assms by (simp add: beforeCollision_def Let_def split_beta)

lemma advance_running:
  assumes "\<not> gameOver state"
  shows "\<exists>s3 k2. beforeCollision rng k user state = Some (s3, k2)
           \<and> advance rng k user state = asteroidLoop rng k2 0 s3"
  using beforeCollision_running [OF assms, of rng k user]
  by (auto simp: advance_def assms)

lemma asteroidBody_length:
  "length (asteroids s) \<le> length (asteroids (fst (asteroidBody rng k i s)))
   \<and> length (asteroids (fst (asteroidBody rng k i s))) \<le> max (length (asteroids s)) 10"
  by (auto simp: asteroidBody_def recycle_def Let_def split_beta ASTEROIDS_MAX_def)

lemma asteroidLoop_length:
  "length (asteroids s) \<le> length (asteroids (fst (asteroidLoop rng k i s)))
   \<and> length (asteroids (fst (asteroidLoop rng k i s))) \<le> max (length (asteroids s)) 10"
proof (rule asteroidLoop_preserves
    [where P = "\<lambda>t. length (asteroids s) \<le> length (asteroids t)
                  \<and> length (asteroids t) \<le> max (length (asteroids s)) 10"])
  show "length (asteroids s) \<le> length (asteroids s)
        \<and> length (asteroids s) \<le> max (length (asteroids s)) 10"
    by simp
next
  fix i k :: nat and t :: SpaceUserData
  assume "length (asteroids s) \<le> length (asteroids t)
          \<and> length (asteroids t) \<le> max (length (asteroids s)) 10"
  then show "length (asteroids s) \<le> length (asteroids (fst (asteroidBody rng k i t)))
        \<and> length (asteroids (fst (asteroidBody rng k i t))) \<le> max (length (asteroids s)) 10"
    using asteroidBody_length [of t rng k i] by auto
qed

lemma reassign_length: "length (fst (reassign rng k xs)) = length xs"
  by (induction xs arbitrary: k) (simp_all add: split_beta)

lemma reassign_fresh: "valid_rng rng \<Longrightarrow> list_all fresh (fst (reassign rng k xs))"
  by (induction xs arbitrary: k) (simp_all add: split_beta createAsteroid_fresh)

lemma beforeCollision_restart:
  assumes "gameOver state" and "getButtonJustPressed user ''Restart''"
  shows "\<exists>s3 k2. beforeCollision rng k user state = Some (s3, k2)
           \<and> asteroids s3 = fst (reassign rng k (take (nat ASTEROIDS_START) (asteroids state)))
           \<and> score s3 = 0 \<and> lives s3 = 3 \<and> invincibilityFrames s3 = 0 \<and> \<not> gameOver s3
           \<and> shipX s3 = max 1 (min 15 (10 + getAxis user ''MoveX'' * SPEED_SHIP))
           \<and> shipY s3 = max 2 (min (real_of_int (HEIGHT - 3))
                                  (real_of_int HEIGHT / 2 + getAxis user ''MoveY'' * SPEED_SHIP))"
  using assms by (simp add: beforeCollision_def resetGame_def Let_def split_beta)

lemma fresh_list_onscreen: "list_all fresh xs \<Longrightarrow> filter offscreen xs = []"
  by (induction xs) (simp_all add: fresh_onscreen)

lemma advance_length:
  "length (asteroids (fst (advance rng k user state))) \<le> max (length (asteroids state)) 10"
  "\<not> gameOver state \<Longrightarrow>
     length (asteroids state) \<le> length (asteroids (fst (advance rng k user state)))"
  "2 \<le> length (asteroids state) \<Longrightarrow> 2 \<le> length (asteroids (fst (advance rng k user state)))"
proof -
  show "length (asteroids (fst (advance rng k user state))) \<le> max (length (asteroids state)) 10"
  proof (cases "gameOver state")
    case False
    obtain s3 k2 where bc: "beforeCollision rng k user state = Some (s3, k2)"
      and adv: "advance rng k user state = asteroidLoop rng k2 0 s3"
      using advance_running [OF False] by blast
    have "asteroids s3 = asteroids state"
      using beforeCollision_running [OF False, of rng k user] bc by auto
    then show ?thesis using asteroidLoop_length [of s3 rng k2 0] adv by simp
  next
    case True
    show ?thesis
    proof (cases "getButtonJustPressed user ''Restart''")
      case False
      then show ?thesis using True by (simp add: advance_def beforeCollision_def)
    next
      case r: True
      obtain s3 k2 where bc: "beforeCollision rng k user state = Some (s3, k2)"
        and a3: "asteroids s3 = fst (reassign rng k (take (nat ASTEROIDS_START) (asteroids state)))"
        using beforeCollision_restart [OF True r, of rng k] by blast
      have l3: "length (asteroids s3) \<le> length (asteroids state)"
        by (simp add: a3 reassign_length)
      show ?thesis
        using asteroidLoop_length [of s3 rng k2 0] asteroidBody_length [of s3 rng k2 0] l3
        by (auto simp: advance_def bc)
    qed
  qed
next
  assume run: "\<not> gameOver state"
  obtain s3 k2 where bc: "beforeCollision rng k user state = Some (s3, k2)"
    and adv: "advance rng k user state = asteroidLoop rng k2 0 s3"
    using advance_running [OF run] by blast
  have "asteroids s3 = asteroids state"
    using beforeCollision_running [OF run, of rng k user] bc by auto
  then show "length (asteroids state) \<le> length (asteroids (fst (advance rng k user state)))"
    using asteroidLoop_length [of s3 rng k2 0] adv by simp
next
  assume two: "2 \<le> length (asteroids state)"
  show "2 \<le> length (asteroids (fst (advance rng k user state)))"
  proof (cases "beforeCollision rng k user state")
    case None
    then show ?thesis using two by (simp add: advance_def)
  next
    case (Some p)
    obtain s3 k2 where p: "p = (s3, k2)" by (cases p)
    have "2 \<le> length (asteroids s3)"
    proof (cases "gameOver state")
      case False
      then show ?thesis
        using beforeCollision_running [OF False, of rng k user] Some p two by auto
    next
      case True
      then have r: "getButtonJustPressed user ''Restart''"
        using Some by (auto simp: beforeCollision_def split: if_splits)
      show ?thesis
        using beforeCollision_restart [OF True r, of rng k] Some p two
        by (auto simp: reassign_length ASTEROIDS_START_def)
    qed
    then show ?thesis
      using asteroidLoop_length [of s3 rng k2 0] two
      by (simp add: advance_def Some p ASTEROIDS_START_def)
  qed
qed

subsection \<open>The game under a random source that returns 0\<close>

lemma createAsteroid_rng0: "fst (createAsteroid rng0 k sc) = zeroAsteroid"
  by (simp add: createAsteroid_def rng0_def pick_def Let_def game_consts zeroAsteroid_def)

lemma hits_game: "hits (game s) a = hits s a"
  by (simp add: hits_def game_def)

lemma recycle_game: "game (fst (recycle rng0 k i s)) = fst (recycle rng0 k' i (game s))"
  by (cases s) (simp add: recycle_def Let_def split_beta createAsteroid_rng0 game_def)

lemma game_updates:
  "game (s\<lparr>asteroids := xs\<rparr>) = (game s)\<lparr>asteroids := xs\<rparr>"
  "game (s\<lparr>lives := l\<rparr>) = (game s)\<lparr>lives := l\<rparr>"
  "game (s\<lparr>gameOver := b\<rparr>) = (game s)\<lparr>gameOver := b\<rparr>"
  "game (s\<lparr>invincibilityFrames := f\<rparr>) = (game s)\<lparr>invincibilityFrames := f\<rparr>"
  "game (s\<lparr>score := c\<rparr>) = (game s)\<lparr>score := c\<rparr>"
  "game (s\<lparr>shipX := px\<rparr>) = (game s)\<lparr>shipX := px\<rparr>"
  "game (s\<lparr>shipY := py\<rparr>) = (game s)\<lparr>shipY := py\<rparr>"
  "game (s\<lparr>starsFar := fs\<rparr>) = game s"
  "game (s\<lparr>starsNear := ns\<rparr>) = game s"
  by (cases s; simp add: game_def)+

lemma game_fields:
  "asteroids (game s) = asteroids s" "lives (game s) = lives s" "score (game s) = score s"
  "gameOver (game s) = gameOver s" "invincibilityFrames (game s) = invincibilityFrames s"
  "shipX (game s) = shipX s" "shipY (game s) = shipY s"
  "starsFar (game s) = []" "starsNear (game s) = []"
  by (simp_all add: game_def)

lemma asteroidBody_game:
  "game (fst (asteroidBody rng0 k i s)) = fst (asteroidBody rng0 k' i (game s))"
  by (simp add: asteroidBody_def Let_def split_beta createAsteroid_rng0 game_updates
        game_fields hits_game recycle_game [of k i _ k'] flip: game_updates(1-7))

lemma asteroidLoop_game:
  assumes "rng = rng0"
  shows "game (fst (asteroidLoop rng k i s)) = fst (asteroidLoop rng k' i (game s))"
  using assms
proof (induction rng k i s arbitrary: k' rule: asteroidLoop.induct)
  case (1 rng k i state)
  note z = "1.prems"
  show ?case
  proof (cases "i < length (asteroids state)")
    case True
    obtain s1 k1 where b: "asteroidBody rng k i state = (s1, k1)"
      by (cases "asteroidBody rng k i state")
    obtain t1 j1 where c: "asteroidBody rng k' i (game state) = (t1, j1)"
      by (cases "asteroidBody rng k' i (game state)")
    have g: "game s1 = t1"
      using asteroidBody_game [of k i state k'] b c z by simp
    have len: "i < length (asteroids (game state))" using True by (simp add: game_def)
    have "game (fst (asteroidLoop rng k1 (Suc i) s1)) = fst (asteroidLoop rng j1 (Suc i) (game s1))"
      by (rule "1.IH" [OF True b [symmetric] z])
    then show ?thesis
      using True len b c g
      by (simp add: asteroidLoop.simps [of rng k i state]
            asteroidLoop.simps [of rng k' i "game state"])
  next
    case False
    then have "\<not> i < length (asteroids (game state))" by (simp add: game_def)
    with False show ?thesis
      by (simp add: asteroidLoop.simps [of rng k i state]
            asteroidLoop.simps [of rng k' i "game state"])
  qed
qed

lemma reassign_rng0: "fst (reassign rng0 k xs) = map (\<lambda>_. zeroAsteroid) xs"
  by (induction xs arbitrary: k) (simp_all add: split_beta createAsteroid_rng0)

lemma resetGame_game: "game (fst (resetGame rng0 k s)) = fst (resetGame rng0 k' (game s))"
  by (simp add: resetGame_def split_beta reassign_rng0 game_def)

lemma beforeCollision_game:
  "map_option (\<lambda>p. game (fst p)) (beforeCollision rng0 k user s)
     = map_option fst (beforeCollision rng0 k' user (game s))"
proof (cases "gameOver s")
  case False
  then show ?thesis
    by (simp add: beforeCollision_def Let_def split_beta game_def)
next
  case True
  have g: "gameOver (game s)" using True by (simp add: game_def)
  have r: "fst (resetGame rng0 k' (game s)) = game (fst (resetGame rng0 k s))"
    by (rule resetGame_game [symmetric])
  show ?thesis
    using True g
    by (simp add: beforeCollision_def Let_def split_beta r)
       (simp add: game_def)
qed

lemma advance_game:
  "game (fst (advance rng0 k user s)) = fst (advance rng0 k' user (game s))"
proof (cases "beforeCollision rng0 k user s")
  case None
  then have "beforeCollision rng0 k' user (game s) = None"
    using beforeCollision_game [of k user s k'] by simp
  with None show ?thesis by (simp add: advance_def)
next
  case (Some p)
  obtain s3 k2 where p: "p = (s3, k2)" by (cases p)
  obtain t3 j2 where q: "beforeCollision rng0 k' user (game s) = Some (t3, j2)"
    and t3: "t3 = game s3"
    using beforeCollision_game [of k user s k'] Some p by (auto simp: map_option_case split: option.splits)
  have e: "(asteroids t3 = []) = (asteroids s3 = [])"
    by (simp add: t3 game_fields)
  show ?thesis
    using asteroidLoop_game [OF refl, of k2 0 s3 j2] asteroidBody_game [of k2 0 s3 j2]
    by (simp add: advance_def Some p q e game_fields) (simp add: t3)
qed

lemma run_Suc:
  "run rng users (Suc n)
     = advance rng (snd (run rng users n)) (users n) (fst (run rng users n))"
  by (simp add: split_beta Let_def updateUser_advance)

lemma run_game: "game (fst (run rng0 users n)) = gameRun users n"
proof (induction n)
  case 0
  show ?case by simp
next
  case (Suc n)
  have "game (fst (run rng0 users (Suc n)))
      = fst (advance rng0 0 (users n) (game (fst (run rng0 users n))))"
    unfolding run_Suc by (rule advance_game)
  then show ?case using Suc by simp
qed

lemma reachable_valid_rng: "reachable rng state k \<Longrightarrow> valid_rng rng"
  by (induction rule: reachable.induct)

lemma run_reachable:
  assumes "valid_rng rng" and "\<And>t. valid_axes (users t)"
  shows "reachable rng (fst (run rng users n)) (snd (run rng users n))"
proof (induction n)
  case 0
  show ?case using assms(1) by (auto intro: reachable.init)
next
  case (Suc n)
  show ?case
    unfolding run_Suc
    by (rule reachable.tick [OF Suc assms(2) [of n]]) (simp_all add: updateUser_advance)
qed

subsection \<open>The two runs, evaluated in stages\<close>

lemma gameFrom_add:
  "gameFrom users t (m + n) g = gameFrom users (t + m) n (gameFrom users t m g)"
  by (induction m arbitrary: t g) simp_all

lemma gameFrom_chain:
  "gameFrom users t m g = g' \<Longrightarrow> t' = t + m \<Longrightarrow> gameFrom users t' n g' = g'' \<Longrightarrow> l = m + n \<Longrightarrow>
   gameFrom users t l g = g''"
  by (simp add: gameFrom_add)

lemma gameFrom_gameRun: "gameFrom users t n (gameRun users t) = gameRun users (t + n)"
proof (induction n arbitrary: t)
  case 0
  show ?case by simp
next
  case (Suc n)
  have "gameFrom users t (Suc n) (gameRun users t)
      = gameFrom users (Suc t) n (gameRun users (Suc t))"
    by simp
  also have "\<dots> = gameRun users (Suc t + n)" by (rule Suc.IH)
  finally show ?case by simp
qed

lemma gameRun_gameFrom: "gameRun users n = gameFrom users 0 n (gameRun users 0)"
  using gameFrom_gameRun [of users 0 n] by (simp del: gameRun.simps)

lemma valid_axes_pilot: "valid_axes (pilot t)"
  by (simp add: valid_axes_def pilot_def)

lemma valid_axes_idling: "valid_axes (idling t)"
  by (simp add: valid_axes_def idling_def idle_def)

lemma gameRun_pilot_0: "gameRun pilot 0 = row2 [60, 60] 10 10 0 3 0 False"
  by code_simp

lemma pilot_from_0:
  "gameFrom pilot 0 8 (row2 [60, 60] 10 10 0 3 0 False)
     = row2 [52, 52] 15 2 0 3 0 False"
  by code_simp

lemma pilot_from_8:
  "gameFrom pilot 8 17 (row2 [52, 52] 15 2 0 3 0 False)
     = row2 [35, 35] 15 2 0 3 0 False"
  by code_simp

lemma pilot_from_25:
  "gameFrom pilot 25 17 (row2 [35, 35] 15 2 0 3 0 False)
     = row2 [18, 18] 15 2 0 3 0 False"
  by code_simp

lemma pilot_from_42:
  "gameFrom pilot 42 1 (row2 [18, 18] 15 2 0 3 0 False)
     = row2 [60, 17] 15 2 0 2 30 False"
  by code_simp

lemma pilot_from_43:
  "gameFrom pilot 43 20 (row2 [60, 17] 15 2 0 2 30 False)
     = row2 [40, 60] 15 2 1 2 10 False"
  by code_simp

lemma pilot_from_63:
  "gameFrom pilot 63 22 (row2 [40, 60] 15 2 1 2 10 False)
     = row2 [18, 38] 15 4 1 2 0 False"
  by code_simp

lemma pilot_from_85:
  "gameFrom pilot 85 20 (row2 [18, 38] 15 4 1 2 0 False)
     = row2 [- 2, 18] 15 2 1 2 0 False"
  by code_simp

lemma pilot_from_105:
  "gameFrom pilot 105 1 (row2 [- 2, 18] 15 2 1 2 0 False)
     = row2 [60, 60] 15 2 2 1 30 False"
  by code_simp

lemma pilot_from_106:
  "gameFrom pilot 106 21 (row2 [60, 60] 15 2 2 1 30 False)
     = row2 [39, 39] 15 2 2 1 9 False"
  by code_simp

lemma pilot_from_127:
  "gameFrom pilot 127 21 (row2 [39, 39] 15 2 2 1 9 False)
     = row2 [18, 18] 15 2 2 1 0 False"
  by code_simp

lemma pilot_from_148:
  "gameFrom pilot 148 1 (row2 [18, 18] 15 2 2 1 0 False)
     = row2 [17, 17] 15 2 2 (- 1) 0 True"
  by code_simp

lemma gameRun_pilot:
  "gameRun pilot 148 = row2 [18, 18] 15 2 2 1 0 False"
  "gameRun pilot 149 = row2 [17, 17] 15 2 2 (- 1) 0 True"
proof -
  have to_8: "gameFrom pilot 0 8 (row2 [60, 60] 10 10 0 3 0 False) = row2 [52, 52] 15 2 0 3 0 False"
    by (rule pilot_from_0)
  have to_25: "gameFrom pilot 0 25 (row2 [60, 60] 10 10 0 3 0 False) = row2 [35, 35] 15 2 0 3 0 False"
    by (rule gameFrom_chain [OF to_8 _ pilot_from_8]) simp_all
  have to_42: "gameFrom pilot 0 42 (row2 [60, 60] 10 10 0 3 0 False) = row2 [18, 18] 15 2 0 3 0 False"
    by (rule gameFrom_chain [OF to_25 _ pilot_from_25]) simp_all
  have to_43: "gameFrom pilot 0 43 (row2 [60, 60] 10 10 0 3 0 False) = row2 [60, 17] 15 2 0 2 30 False"
    by (rule gameFrom_chain [OF to_42 _ pilot_from_42]) simp_all
  have to_63: "gameFrom pilot 0 63 (row2 [60, 60] 10 10 0 3 0 False) = row2 [40, 60] 15 2 1 2 10 False"
    by (rule gameFrom_chain [OF to_43 _ pilot_from_43]) simp_all
  have to_85: "gameFrom pilot 0 85 (row2 [60, 60] 10 10 0 3 0 False) = row2 [18, 38] 15 4 1 2 0 False"
    by (rule gameFrom_chain [OF to_63 _ pilot_from_63]) simp_all
  have to_105: "gameFrom pilot 0 105 (row2 [60, 60] 10 10 0 3 0 False) = row2 [- 2, 18] 15 2 1 2 0 False"
    by (rule gameFrom_chain [OF to_85 _ pilot_from_85]) simp_all
  have to_106: "gameFrom pilot 0 106 (row2 [60, 60] 10 10 0 3 0 False) = row2 [60, 60] 15 2 2 1 30 False"
    by (rule gameFrom_chain [OF to_105 _ pilot_from_105]) simp_all
  have to_127: "gameFrom pilot 0 127 (row2 [60, 60] 10 10 0 3 0 False) = row2 [39, 39] 15 2 2 1 9 False"
    by (rule gameFrom_chain [OF to_106 _ pilot_from_106]) simp_all
  have to_148: "gameFrom pilot 0 148 (row2 [60, 60] 10 10 0 3 0 False) = row2 [18, 18] 15 2 2 1 0 False"
    by (rule gameFrom_chain [OF to_127 _ pilot_from_127]) simp_all
  have to_149: "gameFrom pilot 0 149 (row2 [60, 60] 10 10 0 3 0 False) = row2 [17, 17] 15 2 2 (- 1) 0 True"
    by (rule gameFrom_chain [OF to_148 _ pilot_from_148]) simp_all
  show "gameRun pilot 148 = row2 [18, 18] 15 2 2 1 0 False"
    using to_148 by (simp only: gameRun_gameFrom [of pilot 148] gameRun_pilot_0)
  show "gameRun pilot 149 = row2 [17, 17] 15 2 2 (- 1) 0 True"
    using to_149 by (simp only: gameRun_gameFrom [of pilot 149] gameRun_pilot_0)
qed

lemma gameRun_idling_0: "gameRun idling 0 = row2 [60, 60] 10 10 0 3 0 False"
  by code_simp

lemma idling_from_0:
  "gameFrom idling 0 30 (row2 [60, 60] 10 10 0 3 0 False)
     = row2 [30, 30] 10 10 0 3 0 False"
  by code_simp

lemma idling_from_30:
  "gameFrom idling 30 32 (row2 [30, 30] 10 10 0 3 0 False)
     = row2 [- 2, - 2] 10 10 0 3 0 False"
  by code_simp

lemma idling_from_62:
  "gameFrom idling 62 1 (row2 [- 2, - 2] 10 10 0 3 0 False)
     = row2 [60, 60] 10 10 2 3 0 False"
  by code_simp

lemma idling_from_63:
  "gameFrom idling 63 31 (row2 [60, 60] 10 10 2 3 0 False)
     = row2 [29, 29] 10 10 2 3 0 False"
  by code_simp

lemma idling_from_94:
  "gameFrom idling 94 31 (row2 [29, 29] 10 10 2 3 0 False)
     = row2 [- 2, - 2] 10 10 2 3 0 False"
  by code_simp

lemma idling_from_125:
  "gameFrom idling 125 1 (row2 [- 2, - 2] 10 10 2 3 0 False)
     = row2 [60, 60, 59] 10 10 4 3 0 False"
  by code_simp

lemma gameRun_idling:
  "gameRun idling 125 = row2 [- 2, - 2] 10 10 2 3 0 False"
  "gameRun idling 126 = row2 [60, 60, 59] 10 10 4 3 0 False"
proof -
  have to_30: "gameFrom idling 0 30 (row2 [60, 60] 10 10 0 3 0 False) = row2 [30, 30] 10 10 0 3 0 False"
    by (rule idling_from_0)
  have to_62: "gameFrom idling 0 62 (row2 [60, 60] 10 10 0 3 0 False) = row2 [- 2, - 2] 10 10 0 3 0 False"
    by (rule gameFrom_chain [OF to_30 _ idling_from_30]) simp_all
  have to_63: "gameFrom idling 0 63 (row2 [60, 60] 10 10 0 3 0 False) = row2 [60, 60] 10 10 2 3 0 False"
    by (rule gameFrom_chain [OF to_62 _ idling_from_62]) simp_all
  have to_94: "gameFrom idling 0 94 (row2 [60, 60] 10 10 0 3 0 False) = row2 [29, 29] 10 10 2 3 0 False"
    by (rule gameFrom_chain [OF to_63 _ idling_from_63]) simp_all
  have to_125: "gameFrom idling 0 125 (row2 [60, 60] 10 10 0 3 0 False) = row2 [- 2, - 2] 10 10 2 3 0 False"
    by (rule gameFrom_chain [OF to_94 _ idling_from_94]) simp_all
  have to_126: "gameFrom idling 0 126 (row2 [60, 60] 10 10 0 3 0 False) = row2 [60, 60, 59] 10 10 4 3 0 False"
    by (rule gameFrom_chain [OF to_125 _ idling_from_125]) simp_all
  show "gameRun idling 125 = row2 [- 2, - 2] 10 10 2 3 0 False"
    using to_125 by (simp only: gameRun_gameFrom [of idling 125] gameRun_idling_0)
  show "gameRun idling 126 = row2 [60, 60, 59] 10 10 4 3 0 False"
    using to_126 by (simp only: gameRun_gameFrom [of idling 126] gameRun_idling_0)
qed

lemma gameRun_pilot_8: "gameRun pilot 8 = row2 [52, 52] 15 2 0 3 0 False"
  using pilot_from_0 by (simp only: gameRun_gameFrom [of pilot 8] gameRun_pilot_0)

subsection \<open>Consequences for single calls and reachable states\<close>

lemma run_fields:
  "lives (fst (run rng0 users n)) = lives (gameRun users n)"
  "gameOver (fst (run rng0 users n)) = gameOver (gameRun users n)"
  "asteroids (fst (run rng0 users n)) = asteroids (gameRun users n)"
  "shipX (fst (run rng0 users n)) = shipX (gameRun users n)"
  "shipY (fst (run rng0 users n)) = shipY (gameRun users n)"
  "score (fst (run rng0 users n)) = score (gameRun users n)"
  "invincibilityFrames (fst (run rng0 users n)) = invincibilityFrames (gameRun users n)"
  by (simp_all add: game_fields flip: run_game)

lemma run_call:
  "data (updateUser rng (snd (run rng users n)) (users n) (Some (fst (run rng users n))))
     = Some (fst (run rng users (Suc n)))"
  by (simp only: run_Suc updateUser_advance)

lemma renderUI_raises:
  "renderUI state = Inl e \<longleftrightarrow> e = RangeError \<and> (lives state < 0 \<or> 3 < lives state)"
  by (auto simp: renderUI_def js_repeat_def split: sum.splits if_splits)

lemma updateUser_raised:
  assumes "\<not> gameOver state"
  shows "raised (updateUser rng k user (Some state))
           = (if lives (fst (advance rng k user state)) < 0
                 \<or> 3 < lives (fst (advance rng k user state))
              then Some RangeError else None)"
proof -
  obtain s3 k2 where bc: "beforeCollision rng k user state = Some (s3, k2)"
    and adv: "advance rng k user state = asteroidLoop rng k2 0 s3"
    using advance_running [OF assms] by blast
  have r: "raised (updateUser rng k user (Some state))
             = snd (renderAll (fst (asteroidLoop rng k2 0 s3)))"
    using assms by (simp add: updateUser_def bc split_beta Let_def)
  have "snd (renderAll s) = (if lives s < 0 \<or> 3 < lives s then Some RangeError else None)" for s
    using renderUI_raises [of s]
    by (cases "renderUI s") (auto simp: renderAll_def Let_def)
  then show ?thesis by (simp add: r adv)
qed

lemma createAsteroids_length: "length (fst (createAsteroids rng k n sc)) = n"
  by (induction n arbitrary: k) (simp_all add: split_beta)

lemma initUser_fields:
  "shipX (fst (initUser rng k)) = 10"
  "shipY (fst (initUser rng k)) = 10"
  "length (asteroids (fst (initUser rng k))) = 2"
  "lives (fst (initUser rng k)) = 3"
  by (simp_all add: initUser_def split_beta createAsteroids_length game_consts)

lemma advance_ship:
  assumes "1 \<le> shipX state \<and> shipX state \<le> 15 \<and> 2 \<le> shipY state
           \<and> shipY state \<le> real_of_int (HEIGHT - 3)"
  shows "1 \<le> shipX (fst (advance rng k user state))
         \<and> shipX (fst (advance rng k user state)) \<le> 15
         \<and> 2 \<le> shipY (fst (advance rng k user state))
         \<and> shipY (fst (advance rng k user state)) \<le> real_of_int (HEIGHT - 3)"
proof (cases "beforeCollision rng k user state")
  case None
  then show ?thesis using assms by (simp add: advance_def)
next
  case (Some p)
  obtain s3 k2 where p: "p = (s3, k2)" by (cases p)
  have "beforeCollision rng k user state = Some (s3, k2)" using Some p by simp
  from beforeCollision_ship [OF this] show ?thesis
    by (simp add: advance_def Some p asteroidLoop_frame asteroidBody_frame)
qed

lemma reachable_count:
  "reachable rng state k \<Longrightarrow> 2 \<le> length (asteroids state) \<and> length (asteroids state) \<le> 10"
proof (induction rule: reachable.induct)
  case (init rng k state k')
  then show ?case using initUser_fields(3) [of rng k] by simp
next
  case (tick rng state k user state' k')
  have s': "state' = fst (advance rng k user state)"
    using tick.hyps(3) by (simp add: updateUser_advance)
  show ?case
    using tick.IH advance_length(1) [of rng k user state] advance_length(3) [of state rng k user]
    unfolding s' by simp
qed

lemma advance_growth:
  assumes rng: "valid_rng rng" and bc: "beforeCollision rng k user state = Some (s3, k2)"
    and dense: "\<not> (gameOver state \<and> int (length (asteroids state)) < ASTEROIDS_START)"
  shows "length (asteroids (fst (advance rng k user state)))
           \<le> length (asteroids s3) + length (filter offscreen (asteroids s3))"
proof -
  have adv: "advance rng k user state = asteroidLoop rng k2 0 s3"
    using dense by (auto simp: advance_def bc)
  have ship: "1 \<le> shipX s3" using beforeCollision_ship [OF bc] by simp
  obtain j where j: "length (asteroids (fst (asteroidLoop rng k2 0 s3))) \<le> j"
    and inv: "loop_inv s3 j (fst (asteroidLoop rng k2 0 s3))"
    using asteroidLoop_recycles [OF rng ship, of k2] by blast
  have "length (asteroids s3) \<le> j" using inv j by (simp add: loop_inv_def)
  then show ?thesis using inv by (simp add: adv loop_inv_def)
qed

lemma advance_frozen:
  assumes "gameOver state" and "\<not> getButtonJustPressed user ''Restart''"
  shows "advance rng k user state = (state, k)"
  using assms by (simp add: advance_def beforeCollision_def)

lemma advance_restart_count:
  assumes rng: "valid_rng rng" and over: "gameOver state"
    and restart: "getButtonJustPressed user ''Restart''"
    and two: "2 \<le> length (asteroids state)"
  shows "length (asteroids (fst (advance rng k user state))) = 2"
proof -
  obtain s3 k2 where bc: "beforeCollision rng k user state = Some (s3, k2)"
    and a3: "asteroids s3 = fst (reassign rng k (take (nat ASTEROIDS_START) (asteroids state)))"
    using beforeCollision_restart [OF over restart, of rng k] by blast
  have l3: "length (asteroids s3) = 2"
    using two by (simp add: a3 reassign_length ASTEROIDS_START_def)
  have "list_all fresh (asteroids s3)"
    unfolding a3 by (rule reassign_fresh [OF rng])
  then have none: "filter offscreen (asteroids s3) = []"
    by (rule fresh_list_onscreen)
  have dense: "\<not> (gameOver state \<and> int (length (asteroids state)) < ASTEROIDS_START)"
    using two by (simp add: ASTEROIDS_START_def)
  have "length (asteroids (fst (advance rng k user state))) \<le> 2"
    using advance_growth [OF rng bc dense] by (simp add: none l3)
  moreover have "2 \<le> length (asteroids (fst (advance rng k user state)))"
    by (rule advance_length(3) [OF two])
  ultimately show ?thesis by simp
qed

lemma advance_running_growth:
  assumes rng: "valid_rng rng" and run: "\<not> gameOver state"
  shows "length (asteroids (fst (advance rng k user state)))
           \<le> length (asteroids state) + length (filter offscreen (asteroids state))"
proof -
  obtain s3 k2 where bc: "beforeCollision rng k user state = Some (s3, k2)"
    using advance_running [OF run] by blast
  have same: "asteroids s3 = asteroids state"
    using beforeCollision_running [OF run, of rng k user] bc by auto
  show ?thesis
    using advance_growth [OF rng bc] run by (simp add: same)
qed

lemma asteroidBody_invincible:
  assumes "0 < invincibilityFrames s"
  shows "invincibilityFrames (fst (asteroidBody rng k i s)) = invincibilityFrames s
         \<and> lives (fst (asteroidBody rng k i s)) = lives s
         \<and> gameOver (fst (asteroidBody rng k i s)) = gameOver s"
  using assms by (simp add: asteroidBody_def Let_def recycle_frame)

lemma asteroidLoop_invincible:
  assumes "0 < invincibilityFrames s"
  shows "invincibilityFrames (fst (asteroidLoop rng k i s)) = invincibilityFrames s
         \<and> lives (fst (asteroidLoop rng k i s)) = lives s
         \<and> gameOver (fst (asteroidLoop rng k i s)) = gameOver s"
proof (rule asteroidLoop_preserves
    [where P = "\<lambda>t. invincibilityFrames t = invincibilityFrames s \<and> lives t = lives s
                  \<and> gameOver t = gameOver s"])
  show "invincibilityFrames s = invincibilityFrames s \<and> lives s = lives s
        \<and> gameOver s = gameOver s"
    by simp
next
  fix i k :: nat and t :: SpaceUserData
  assume "invincibilityFrames t = invincibilityFrames s \<and> lives t = lives s
          \<and> gameOver t = gameOver s"
  then show "invincibilityFrames (fst (asteroidBody rng k i t)) = invincibilityFrames s
        \<and> lives (fst (asteroidBody rng k i t)) = lives s
        \<and> gameOver (fst (asteroidBody rng k i t)) = gameOver s"
    using asteroidBody_invincible [of t rng k i] assms by simp
qed

lemma asteroidBody_far:
  assumes i: "i < length (asteroids s)" and far: "60 \<le> ast_x (asteroids s ! i)"
    and ship: "shipX s \<le> 15"
  shows "asteroidBody rng k i s
           = (s\<lparr>asteroids := (asteroids s)
                  [i := (asteroids s ! i)\<lparr>ast_x := ast_x (asteroids s ! i) - SPEED_ASTEROID\<rparr>]\<rparr>, k)"
proof -
  let ?a1 = "(asteroids s ! i)\<lparr>ast_x := ast_x (asteroids s ! i) - SPEED_ASTEROID\<rparr>"
  let ?s1 = "s\<lparr>asteroids := (asteroids s)[i := ?a1]\<rparr>"
  have x1: "59 \<le> ast_x ?a1" using far by (simp add: SPEED_ASTEROID_def)
  then have g1: "59 \<le> \<lfloor>ast_x ?a1\<rfloor>" by (simp add: le_floor_iff)
  have g2: "\<lfloor>shipX ?s1\<rfloor> \<le> 15" using ship by (simp add: floor_le_iff)
  have miss: "\<not> hits ?s1 ?a1"
    unfolding hits_def Let_def using g1 g2 by arith
  have on: "\<not> ast_x (asteroids ?s1 ! i) < - 2" using x1 i by simp
  show ?thesis
    using miss on by (simp add: asteroidBody_def Let_def recycle_def)
qed

lemma asteroidLoop_far:
  assumes far: "\<forall>j<length (asteroids s). 60 \<le> ast_x (asteroids s ! j)" and ship: "shipX s \<le> 15"
  shows "lives (fst (asteroidLoop rng k 0 s)) = lives s
         \<and> gameOver (fst (asteroidLoop rng k 0 s)) = gameOver s"
proof -
  let ?I = "\<lambda>i (k :: nat) t. lives t = lives s \<and> gameOver t = gameOver s \<and> shipX t \<le> 15
              \<and> (\<forall>j<length (asteroids t). i \<le> j \<longrightarrow> 60 \<le> ast_x (asteroids t ! j))"
  have "\<exists>j. length (asteroids (fst (asteroidLoop rng k 0 s))) \<le> j
          \<and> ?I j (snd (asteroidLoop rng k 0 s)) (fst (asteroidLoop rng k 0 s))"
  proof (rule asteroidLoop_rule [where I = ?I])
    show "?I 0 k s" using far ship by simp
  next
    fix i k :: nat and t :: SpaceUserData
    assume inv: "?I i k t" and i: "i < length (asteroids t)"
    then have "60 \<le> ast_x (asteroids t ! i)" by simp
    from asteroidBody_far [OF i this, of rng k] inv
    show "?I (Suc i) (snd (asteroidBody rng k i t)) (fst (asteroidBody rng k i t))"
      by (simp add: nth_list_update)
  qed
  then show ?thesis by auto
qed

lemma fresh_far: "list_all fresh xs \<Longrightarrow> \<forall>j<length xs. 60 \<le> ast_x (xs ! j)"
  by (simp add: list_all_length fresh_def WIDTH_def)

lemma reassign_created:
  "list_all (\<lambda>a. \<exists>j. a = fst (createAsteroid rng j 0)) (fst (reassign rng k xs))"
  by (induction xs arbitrary: k) (auto simp: split_beta)

lemma renderAll_layers:
  "map fst (fst (renderAll s))
     = (if snd (renderAll s) = None then [StarLayerFar, StarLayerNear, GameLayer, UiLayer]
        else [StarLayerFar, StarLayerNear, GameLayer])"
  by (auto simp: renderAll_def renderStars_def renderGame_def renderUI_def Let_def
           split: sum.splits)

lemma updateUser_running_commits:
  assumes "\<not> gameOver state"
  shows "map fst (commits (updateUser rng k user (Some state)))
           = (if raised (updateUser rng k user (Some state)) = None
              then [StarLayerFar, StarLayerNear, GameLayer, UiLayer]
              else [StarLayerFar, StarLayerNear, GameLayer])"
proof -
  obtain s3 k2 where bc: "beforeCollision rng k user state = Some (s3, k2)"
    using advance_running [OF assms] by blast
  show ?thesis
    using assms renderAll_layers [of "fst (asteroidLoop rng k2 0 s3)"]
    by (simp add: updateUser_def bc split_beta Let_def)
qed

subsection \<open>Restart\<close>

text \<open>
  The reset of a restart, for any state that holds at least \<open>ASTEROIDS_START\<close> asteroids.
  On a record with fewer asteroids, which no run from \<open>initUser\<close> produces
  (\<open>reachable_count\<close>), the assignment to \<open>length\<close> cannot truncate: it leaves holes, the
  loop reads \<open>undefined\<close> and the call ends in a \<open>TypeError\<close> with nothing rendered.
\<close>

lemma restart_resets:
  assumes "valid_rng rng" and "gameOver state" and "getButtonJustPressed user ''Restart''"
    and "ASTEROIDS_START \<le> int (length (asteroids state))"
  shows "\<exists>s0 k0. resetGame rng k state = (s0, k0)
           \<and> shipX s0 = 10 \<and> shipY s0 = real_of_int HEIGHT / 2 \<and> score s0 = 0 \<and> lives s0 = 3
           \<and> invincibilityFrames s0 = 0 \<and> \<not> gameOver s0
           \<and> int (length (asteroids s0)) = ASTEROIDS_START
           \<and> list_all (\<lambda>a. \<exists>j. a = fst (createAsteroid rng j 0)) (asteroids s0)
           \<and> list_all fresh (asteroids s0)
           \<and> starsFar s0 = starsFar state \<and> starsNear s0 = starsNear state
           \<and> updateUser rng k user (Some state) = updateUser rng k0 user (Some s0)
           \<and> raised (updateUser rng k user (Some state)) = None
           \<and> map fst (commits (updateUser rng k user (Some state)))
               = [StarLayerFar, StarLayerNear, GameLayer, UiLayer]"
proof -
  obtain s0 k0 where rg: "resetGame rng k state = (s0, k0)"
    by (cases "resetGame rng k state")
  have a0: "asteroids s0 = fst (reassign rng k (take (nat ASTEROIDS_START) (asteroids state)))"
    and f0: "shipX s0 = 10" "shipY s0 = real_of_int HEIGHT / 2" "score s0 = 0" "lives s0 = 3"
      "invincibilityFrames s0 = 0" "\<not> gameOver s0"
      "starsFar s0 = starsFar state" "starsNear s0 = starsNear state"
    using rg by (auto simp: resetGame_def split_beta)
  have len: "int (length (asteroids s0)) = ASTEROIDS_START"
    using assms(4) by (simp add: a0 reassign_length ASTEROIDS_START_def)
  have created: "list_all (\<lambda>a. \<exists>j. a = fst (createAsteroid rng j 0)) (asteroids s0)"
    unfolding a0 by (rule reassign_created)
  have fr: "list_all fresh (asteroids s0)"
    unfolding a0 by (rule reassign_fresh [OF assms(1)])
  have bc: "beforeCollision rng k user state = beforeCollision rng k0 user s0"
    using assms(2,3) f0(6) by (simp add: beforeCollision_def rg)
  obtain s3 k2 where b3: "beforeCollision rng k0 user s0 = Some (s3, k2)"
    and adv: "advance rng k0 user s0 = asteroidLoop rng k2 0 s3"
    using advance_running [OF f0(6)] by blast
  have same: "updateUser rng k user (Some state) = updateUser rng k0 user (Some s0)"
    using assms(2,4) f0(6) by (simp add: updateUser_def bc b3)
  have s3: "asteroids s3 = asteroids s0" "lives s3 = lives s0"
    using beforeCollision_running [OF f0(6), of rng k0 user] b3 by auto
  have "shipX s3 \<le> 15" using beforeCollision_ship [OF b3] by simp
  moreover have "\<forall>j<length (asteroids s3). 60 \<le> ast_x (asteroids s3 ! j)"
    unfolding s3 by (rule fresh_far [OF fr])
  ultimately have "lives (fst (asteroidLoop rng k2 0 s3)) = lives s3"
    using asteroidLoop_far [of s3 rng k2] by simp
  then have "lives (fst (advance rng k0 user s0)) = 3"
    by (simp add: adv s3 f0)
  then have quiet: "raised (updateUser rng k0 user (Some s0)) = None"
    by (simp add: updateUser_raised [OF f0(6)])
  have layers: "map fst (commits (updateUser rng k0 user (Some s0)))
                  = [StarLayerFar, StarLayerNear, GameLayer, UiLayer]"
    by (simp add: updateUser_running_commits [OF f0(6)] quiet)
  show ?thesis
    using rg f0 len created fr same quiet layers by simp
qed

lemma restart_with_short_list_raises:
  "gameOver emptyLost \<and> getButtonJustPressed restarting ''Restart''
   \<and> raised (updateUser rng0 0 restarting (Some emptyLost)) = Some TypeError
   \<and> commits (updateUser rng0 0 restarting (Some emptyLost)) = []
   \<and> (\<exists>s. data (updateUser rng0 0 restarting (Some emptyLost)) = Some s \<and> asteroids s = [])"
proof -
  have "gameOver emptyLost" by (simp add: emptyLost_def)
  moreover have "getButtonJustPressed restarting ''Restart''" by (simp add: restarting_def)
  moreover have "raised (updateUser rng0 0 restarting (Some emptyLost)) = Some TypeError"
    by code_simp
  moreover have "commits (updateUser rng0 0 restarting (Some emptyLost)) = []"
    by code_simp
  moreover have "asteroids (fst (advance rng0 0 restarting emptyLost)) = []"
    by code_simp
  ultimately show ?thesis by (simp add: updateUser_advance)
qed

subsection \<open>The lifecycle effect\<close>

lemma effect_skips_same_key:
  "initializedWithKeyRef refs = Some (depsKey p) \<Longrightarrow> lifecycleEffect p refs = (refs, [], False)"
  by (simp add: lifecycleEffect_def)

section \<open>The claims\<close>

text \<open>
  C1. Lives never go negative. The code does not keep this: the hit that takes the last
  life sets \<open>gameOver\<close> but starts no recovery period and does not leave the loop, so a
  second asteroid touching the ship in the same tick decrements \<open>lives\<close> again. The run
  below starts at \<open>initUser\<close>, with \<open>Math.random()\<close> returning 0 throughout and the inputs of
  \<open>pilot\<close>: before the call of tick 149 the ship has one life, no recovery
  frames left and both asteroids one cell off its nose; the call leaves \<open>lives = -1\<close>, and
  \<open>renderUI\<close> raises \<open>RangeError\<close> from \<open>repeat(-1)\<close>.
\<close>

theorem lives_negative_after_double_hit:
  "reachable rng0 (fst (run rng0 pilot 149)) (snd (run rng0 pilot 149))
   \<and> lives (fst (run rng0 pilot 148)) = 1
   \<and> \<not> gameOver (fst (run rng0 pilot 148))
   \<and> data (updateUser rng0 (snd (run rng0 pilot 148)) (pilot 148)
              (Some (fst (run rng0 pilot 148))))
       = Some (fst (run rng0 pilot 149))
   \<and> lives (fst (run rng0 pilot 149)) = - 1
   \<and> raised (updateUser rng0 (snd (run rng0 pilot 148)) (pilot 148)
                (Some (fst (run rng0 pilot 148))))
       = Some RangeError"
proof -
  have r: "reachable rng0 (fst (run rng0 pilot 149)) (snd (run rng0 pilot 149))"
    by (rule run_reachable [OF valid_rng0 valid_axes_pilot])
  have before: "lives (fst (run rng0 pilot 148)) = 1" "\<not> gameOver (fst (run rng0 pilot 148))"
    by (simp_all add: run_fields gameRun_pilot row2_def)
  have after: "lives (fst (run rng0 pilot 149)) = - 1"
    by (simp add: run_fields gameRun_pilot row2_def)
  have call: "data (updateUser rng0 (snd (run rng0 pilot 148)) (pilot 148)
                      (Some (fst (run rng0 pilot 148))))
                = Some (fst (run rng0 pilot (Suc 148)))"
    by (rule run_call)
  have s: "Suc 148 = 149" by simp
  have adv: "fst (advance rng0 (snd (run rng0 pilot 148)) (pilot 148) (fst (run rng0 pilot 148)))
               = fst (run rng0 pilot 149)"
    using call unfolding s by (simp add: updateUser_advance)
  have "raised (updateUser rng0 (snd (run rng0 pilot 148)) (pilot 148)
                  (Some (fst (run rng0 pilot 148))))
          = Some RangeError"
    by (simp add: updateUser_raised [OF before(2)] adv after)
  with r before after call show ?thesis unfolding s by simp
qed

text \<open>
  C2. Ship position stays within clamped bounds: in every state reachable from
  \<open>initUser\<close> by \<open>updateUser\<close> calls whose axes report values in [-1, 1],
  \<open>1 \<le> shipX \<le> 15\<close> and \<open>2 \<le> shipY \<le> HEIGHT - 3\<close>.
\<close>

theorem ship_within_bounds:
  "reachable rng state k \<Longrightarrow>
   1 \<le> shipX state \<and> shipX state \<le> 15
   \<and> 2 \<le> shipY state \<and> shipY state \<le> real_of_int (HEIGHT - 3)"
proof (induction rule: reachable.induct)
  case (init rng k state k')
  then show ?case
    using initUser_fields(1,2) [of rng k] by (simp add: HEIGHT_def)
next
  case (tick rng state k user state' k')
  have "state' = fst (advance rng k user state)"
    using tick.hyps(3) by (simp add: updateUser_advance)
  then show ?case using advance_ship [OF tick.IH] by simp
qed

theorem ship_within_bounds_witness:
  "reachable rng0 (fst (run rng0 pilot 8)) (snd (run rng0 pilot 8))
   \<and> shipX (fst (run rng0 pilot 8)) = 15 \<and> shipY (fst (run rng0 pilot 8)) = 2
   \<and> 1 \<le> shipX (fst (run rng0 pilot 8)) \<and> shipX (fst (run rng0 pilot 8)) \<le> 15
   \<and> 2 \<le> shipY (fst (run rng0 pilot 8))
   \<and> shipY (fst (run rng0 pilot 8)) \<le> real_of_int (HEIGHT - 3)"
proof -
  have r: "reachable rng0 (fst (run rng0 pilot 8)) (snd (run rng0 pilot 8))"
    by (rule run_reachable [OF valid_rng0 valid_axes_pilot])
  have at: "shipX (fst (run rng0 pilot 8)) = 15" "shipY (fst (run rng0 pilot 8)) = 2"
    by (simp_all add: run_fields gameRun_pilot_8 row2_def)
  from ship_within_bounds [OF r] r at show ?thesis by simp
qed

text \<open>
  C3. Asteroid recycles when off-screen: in every \<open>updateUser\<close> call on a game that is not
  over, each asteroid whose \<open>x\<close>, after the move left by \<open>SPEED_ASTEROID\<close>, is below \<open>-2\<close>
  is replaced at its own index by a newly created asteroid, whose \<open>x\<close> is at least
  \<open>WIDTH\<close> and whose \<open>y\<close> lies in \<open>[2, HEIGHT - 3]\<close>, and the score grows by exactly one
  for each such asteroid (and by nothing else). \<open>Math.random()\<close> keeps its contract.
\<close>

theorem offscreen_asteroids_recycled:
  assumes "valid_rng rng" and "\<not> gameOver state"
    and "data (updateUser rng k user (Some state)) = Some state'"
  shows "(\<forall>i<length (asteroids state).
            ast_x (asteroids state ! i) - SPEED_ASTEROID < - 2 \<longrightarrow>
              i < length (asteroids state')
              \<and> real_of_int WIDTH \<le> ast_x (asteroids state' ! i)
              \<and> 2 \<le> ast_y (asteroids state' ! i)
              \<and> ast_y (asteroids state' ! i) \<le> real_of_int (HEIGHT - 3))
         \<and> score state' = score state
              + int (length (filter (\<lambda>a. ast_x a - SPEED_ASTEROID < - 2) (asteroids state)))"
proof -
  obtain s3 k2 where bc: "beforeCollision rng k user state = Some (s3, k2)"
    and adv: "advance rng k user state = asteroidLoop rng k2 0 s3"
    using advance_running [OF assms(2)] by blast
  have same: "asteroids s3 = asteroids state" "score s3 = score state"
    using beforeCollision_running [OF assms(2), of rng k user] bc by auto
  have ship: "1 \<le> shipX s3" using beforeCollision_ship [OF bc] by simp
  have st: "state' = fst (asteroidLoop rng k2 0 s3)"
    using assms(3) adv by (simp add: updateUser_advance)
  obtain j where j: "length (asteroids state') \<le> j" and inv: "loop_inv s3 j state'"
    using asteroidLoop_recycles [OF assms(1) ship, of k2] st by blast
  have len: "length (asteroids state) \<le> length (asteroids state')"
    using inv same by (simp add: loop_inv_def)
  have fr: "fresh (asteroids state' ! i)"
    if "i < length (asteroids state)" "ast_x (asteroids state ! i) - SPEED_ASTEROID < - 2" for i
    using inv that j len same by (simp add: loop_inv_def offscreen_def)
  have "score state' = score state + int (length (filter offscreen (asteroids state)))"
    using inv j len same by (simp add: loop_inv_def)
  then have sc: "score state' = score state
      + int (length (filter (\<lambda>a. ast_x a - SPEED_ASTEROID < - 2) (asteroids state)))"
    unfolding offscreen_def [abs_def] .
  show ?thesis
    using fr sc len by (auto simp: fresh_def)
qed

theorem offscreen_asteroids_recycled_witness:
  "valid_rng rng0 \<and> \<not> gameOver driftingGame
   \<and> data (updateUser rng0 0 idle (Some driftingGame)) = Some driftedGame
   \<and> ast_x (asteroids driftingGame ! 0) - SPEED_ASTEROID < - 2
   \<and> real_of_int WIDTH \<le> ast_x (asteroids driftedGame ! 0)
   \<and> 2 \<le> ast_y (asteroids driftedGame ! 0)
   \<and> ast_y (asteroids driftedGame ! 0) \<le> real_of_int (HEIGHT - 3)
   \<and> score driftedGame = score driftingGame + 1"
proof -
  have g: "\<not> gameOver driftingGame" by (simp add: driftingGame_def)
  have d: "data (updateUser rng0 0 idle (Some driftingGame)) = Some driftedGame"
    by code_simp
  have i: "0 < length (asteroids driftingGame)"
    and off: "ast_x (asteroids driftingGame ! 0) - SPEED_ASTEROID < - 2"
    by (simp_all add: driftingGame_def SPEED_ASTEROID_def)
  have f: "filter (\<lambda>a. ast_x a - SPEED_ASTEROID < - 2) (asteroids driftingGame)
             = [\<lparr>ast_x = - 2, ast_y = 5, ast_char = Some ''0''\<rparr>]"
    by (simp add: driftingGame_def SPEED_ASTEROID_def)
  from offscreen_asteroids_recycled [OF valid_rng0 g d] i off
  show ?thesis using valid_rng0 g d by (simp add: f)
qed

text \<open>
  C4, as stated: the number of asteroids after an \<open>updateUser\<close> call equals the number
  before it. This fails: when a recycled asteroid brings the score to 3 the loop pushes
  a third asteroid. With \<open>rng0\<close> and an idle user, the call of tick 126 after
  \<open>initUser\<close> turns two asteroids into three.
\<close>

theorem asteroid_count_grows:
  "reachable rng0 (fst (run rng0 idling 125)) (snd (run rng0 idling 125))
   \<and> data (updateUser rng0 (snd (run rng0 idling 125)) (idling 125)
              (Some (fst (run rng0 idling 125))))
       = Some (fst (run rng0 idling 126))
   \<and> length (asteroids (fst (run rng0 idling 125))) = 2
   \<and> length (asteroids (fst (run rng0 idling 126))) = 3
   \<and> score (fst (run rng0 idling 125)) = 2
   \<and> score (fst (run rng0 idling 126)) = 4"
proof -
  have r: "reachable rng0 (fst (run rng0 idling 125)) (snd (run rng0 idling 125))"
    by (rule run_reachable [OF valid_rng0 valid_axes_idling])
  have "data (updateUser rng0 (snd (run rng0 idling 125)) (idling 125)
                (Some (fst (run rng0 idling 125))))
          = Some (fst (run rng0 idling (Suc 125)))"
    by (rule run_call)
  moreover have "Suc 125 = 126" by simp
  ultimately have call: "data (updateUser rng0 (snd (run rng0 idling 125)) (idling 125)
                (Some (fst (run rng0 idling 125))))
          = Some (fst (run rng0 idling 126))"
    by simp
  show ?thesis
    using r call by (simp add: run_fields gameRun_idling row2_def)
qed

text \<open>
  C4, amended. The asteroid list is small and bounded, not fixed: every state reachable
  from \<open>initUser\<close> holds between \<open>ASTEROIDS_START\<close> and \<open>ASTEROIDS_MAX\<close> asteroids, and so
  does the state after a further \<open>updateUser\<close> call. A call on a game that is over
  leaves the list alone, unless Restart is pressed: then it cuts the list to
  \<open>ASTEROIDS_START\<close>. A call on a running game never removes an asteroid and adds at most
  one for each asteroid that it recycles off-screen.
\<close>

theorem asteroid_count_bounded:
  assumes "reachable rng state k"
    and "data (updateUser rng k user (Some state)) = Some state'"
  shows "ASTEROIDS_START \<le> int (length (asteroids state))
         \<and> int (length (asteroids state)) \<le> ASTEROIDS_MAX
         \<and> ASTEROIDS_START \<le> int (length (asteroids state'))
         \<and> int (length (asteroids state')) \<le> ASTEROIDS_MAX
         \<and> (if gameOver state
             then (if getButtonJustPressed user ''Restart''
                   then int (length (asteroids state')) = ASTEROIDS_START
                   else asteroids state' = asteroids state)
             else length (asteroids state) \<le> length (asteroids state')
                  \<and> length (asteroids state')
                       \<le> length (asteroids state)
                          + length (filter (\<lambda>a. ast_x a - SPEED_ASTEROID < - 2)
                                      (asteroids state)))"
proof -
  have s': "state' = fst (advance rng k user state)"
    using assms(2) by (simp add: updateUser_advance)
  have rng: "valid_rng rng" by (rule reachable_valid_rng [OF assms(1)])
  have b: "2 \<le> length (asteroids state)" "length (asteroids state) \<le> 10"
    using reachable_count [OF assms(1)] by simp_all
  have b': "2 \<le> length (asteroids state')" "length (asteroids state') \<le> 10"
    using advance_length(1) [of rng k user state] advance_length(3) [OF b(1), of rng k user] b(2)
    unfolding s' by simp_all
  have c: "int (length (asteroids state')) = ASTEROIDS_START"
    if "gameOver state" "getButtonJustPressed user ''Restart''"
    using advance_restart_count [OF rng that b(1), of k]
    unfolding s' by (simp add: ASTEROIDS_START_def)
  have d: "asteroids state' = asteroids state"
    if "gameOver state" "\<not> getButtonJustPressed user ''Restart''"
    unfolding s' by (simp add: advance_frozen [OF that])
  have e: "length (asteroids state) \<le> length (asteroids state')" if "\<not> gameOver state"
    unfolding s' by (rule advance_length(2) [OF that])
  have "length (asteroids state')
          \<le> length (asteroids state) + length (filter offscreen (asteroids state))"
    if "\<not> gameOver state"
    unfolding s' by (rule advance_running_growth [OF rng that])
  then have f: "length (asteroids state')
          \<le> length (asteroids state)
             + length (filter (\<lambda>a. ast_x a - SPEED_ASTEROID < - 2) (asteroids state))"
    if "\<not> gameOver state"
    using that unfolding offscreen_def [abs_def] by simp
  show ?thesis
    using b b' c d e f by (simp add: ASTEROIDS_START_def ASTEROIDS_MAX_def)
qed

theorem asteroid_count_bounded_witness:
  "reachable rng0 (fst (run rng0 idling 125)) (snd (run rng0 idling 125))
   \<and> data (updateUser rng0 (snd (run rng0 idling 125)) (idling 125)
              (Some (fst (run rng0 idling 125))))
       = Some (fst (run rng0 idling (Suc 125)))
   \<and> \<not> gameOver (fst (run rng0 idling 125))
   \<and> ASTEROIDS_START \<le> int (length (asteroids (fst (run rng0 idling 125))))
   \<and> int (length (asteroids (fst (run rng0 idling (Suc 125))))) \<le> ASTEROIDS_MAX
   \<and> length (asteroids (fst (run rng0 idling 125)))
        \<le> length (asteroids (fst (run rng0 idling (Suc 125))))"
proof -
  have r: "reachable rng0 (fst (run rng0 idling 125)) (snd (run rng0 idling 125))"
    by (rule run_reachable [OF valid_rng0 valid_axes_idling])
  have call: "data (updateUser rng0 (snd (run rng0 idling 125)) (idling 125)
                (Some (fst (run rng0 idling 125))))
          = Some (fst (run rng0 idling (Suc 125)))"
    by (rule run_call)
  have g: "\<not> gameOver (fst (run rng0 idling 125))"
    by (simp add: run_fields gameRun_idling row2_def)
  from asteroid_count_bounded [OF r call] r call g show ?thesis
    by (simp del: run.simps)
qed

text \<open>
  C5. Duplicate runtime instantiation is avoided by comparing a derived key. The guard
  itself works: with the stored key equal to the current one the effect returns without
  an event. But the cleanup function resets the stored key, so in the Strict Mode
  sequence the guard finds \<open>null\<close>, and the second run of the effect constructs and starts
  a second runtime for the same key.
\<close>

theorem strict_mode_constructs_twice:
  "strictModeMount appProps mountedRefs
     = (\<lparr>containerMounted = True, runtimeRef = Some 1,
         initializedWithKeyRef = Some (depsKey appProps), constructed = 2\<rparr>,
        [ClearContainer, Construct 0 (runtimeOptions appProps), Start 0,
         Stop 0,
         ClearContainer, Construct 1 (runtimeOptions appProps), Start 1])"
  by (simp add: strictModeMount_def lifecycleEffect_def lifecycleCleanup_def mountedRefs_def
        Let_def)

text \<open>
  C6, as stated, holds of every run of the effect body with a key different from the
  stored one. The effect first checks that the container is mounted and returns if it
  is not, whatever the keys.
\<close>

theorem effect_without_container_does_nothing:
  "initializedWithKeyRef unmountedRefs \<noteq> Some (depsKey appProps)
   \<and> lifecycleEffect appProps unmountedRefs = (unmountedRefs, [], False)"
  by (simp add: lifecycleEffect_def unmountedRefs_def mountedRefs_def)

text \<open>
  C6, amended. The wrapper re-initialises on dependency change: whenever the effect body
  runs with the container mounted and a derived key different from the stored one, it
  stops the existing runtime, if there is one, and drops it, clears the container,
  records the new key, and constructs and starts exactly one new runtime, configured
  with the current application, renderer, width, height and autoplay; it returns its
  cleanup function.
\<close>

theorem effect_reinitializes:
  assumes "containerMounted refs" and "initializedWithKeyRef refs \<noteq> Some (depsKey p)"
  shows "lifecycleEffect p refs
           = (refs\<lparr>runtimeRef := Some (constructed refs),
                    initializedWithKeyRef := Some (depsKey p),
                    constructed := Suc (constructed refs)\<rparr>,
              (case runtimeRef refs of Some r \<Rightarrow> [Stop r] | None \<Rightarrow> [])
              @ [ClearContainer,
                 Construct (constructed refs)
                   \<lparr>mode = ''standalone'', standaloneApplication = application p,
                    optRenderer = renderer p, optWidth = width p, optHeight = height p,
                    optAutoplay = autoplay p\<rparr>,
                 Start (constructed refs)],
              True)"
  using assms by (simp add: lifecycleEffect_def runtimeOptions_def Let_def)

theorem effect_reinitializes_witness:
  "containerMounted runningRefs
   \<and> initializedWithKeyRef runningRefs \<noteq> Some (depsKey wideProps)
   \<and> lifecycleEffect wideProps runningRefs
       = (\<lparr>containerMounted = True, runtimeRef = Some 1,
           initializedWithKeyRef = Some (depsKey wideProps), constructed = 2\<rparr>,
          [Stop 0, ClearContainer,
           Construct 1 \<lparr>mode = ''standalone'',
                        standaloneApplication = \<lparr>constructorName = ''SpaceDemo'', instanceId = 0\<rparr>,
                        optRenderer = ''TerminalGL'', optWidth = 120, optHeight = 20,
                        optAutoplay = True\<rparr>,
           Start 1],
          True)"
proof -
  have k: "depsKey appProps \<noteq> depsKey wideProps"
    by code_simp
  have m: "containerMounted runningRefs"
    and d: "initializedWithKeyRef runningRefs \<noteq> Some (depsKey wideProps)"
    using k by (simp_all add: runningRefs_def)
  have w: "application wideProps = \<lparr>constructorName = ''SpaceDemo'', instanceId = 0\<rparr>"
    "renderer wideProps = ''TerminalGL''" "width wideProps = 120" "height wideProps = 20"
    "autoplay wideProps"
    by (simp_all add: wideProps_def appProps_def)
  have r: "runtimeRef runningRefs = Some 0" "constructed runningRefs = 1"
    "runningRefs\<lparr>runtimeRef := Some 1, initializedWithKeyRef := Some (depsKey wideProps),
                   constructed := 2\<rparr>
       = \<lparr>containerMounted = True, runtimeRef = Some 1,
          initializedWithKeyRef = Some (depsKey wideProps), constructed = 2\<rparr>"
    by (simp_all add: runningRefs_def)
  from effect_reinitializes [OF m d] m d show ?thesis
    by (simp add: w r)
qed

text \<open>
  C7. Reset-on-restart restores the initial game state: for every state a user can be in
  (reachable from \<open>initUser\<close>) with \<open>gameOver\<close> true, if Restart is just pressed,
  \<open>updateUser\<close> first resets the state to \<open>shipX = 10\<close>, \<open>shipY = HEIGHT / 2\<close>,
  \<open>score = 0\<close>, \<open>lives = 3\<close>, \<open>invincibilityFrames = 0\<close>, \<open>gameOver = false\<close> and an
  asteroid list truncated to exactly \<open>ASTEROIDS_START\<close> asteroids, each one the result of
  \<open>createAsteroid(0)\<close> (so off-screen right), the stars untouched; it then does what a
  call on that reset state does, and that tick raises nothing and commits to all four
  layers.
\<close>

theorem restart_resets_game:
  assumes "reachable rng state k" and "gameOver state"
    and "getButtonJustPressed user ''Restart''"
  shows "\<exists>s0 k0. resetGame rng k state = (s0, k0)
           \<and> shipX s0 = 10 \<and> shipY s0 = real_of_int HEIGHT / 2 \<and> score s0 = 0 \<and> lives s0 = 3
           \<and> invincibilityFrames s0 = 0 \<and> \<not> gameOver s0
           \<and> int (length (asteroids s0)) = ASTEROIDS_START
           \<and> list_all (\<lambda>a. \<exists>j. a = fst (createAsteroid rng j 0)) (asteroids s0)
           \<and> list_all fresh (asteroids s0)
           \<and> starsFar s0 = starsFar state \<and> starsNear s0 = starsNear state
           \<and> updateUser rng k user (Some state) = updateUser rng k0 user (Some s0)
           \<and> raised (updateUser rng k user (Some state)) = None
           \<and> map fst (commits (updateUser rng k user (Some state)))
               = [StarLayerFar, StarLayerNear, GameLayer, UiLayer]"
proof -
  have v: "valid_rng rng" by (rule reachable_valid_rng [OF assms(1)])
  have l: "ASTEROIDS_START \<le> int (length (asteroids state))"
    using reachable_count [OF assms(1)] by (simp add: ASTEROIDS_START_def)
  show ?thesis
    by (rule restart_resets [OF v assms(2,3) l])
qed

theorem restart_resets_game_witness:
  "reachable rng0 (fst (run rng0 pilot 149)) (snd (run rng0 pilot 149))
   \<and> gameOver (fst (run rng0 pilot 149)) \<and> getButtonJustPressed restarting ''Restart''
   \<and> raised (updateUser rng0 (snd (run rng0 pilot 149)) restarting
                (Some (fst (run rng0 pilot 149)))) = None
   \<and> map fst (commits (updateUser rng0 (snd (run rng0 pilot 149)) restarting
                          (Some (fst (run rng0 pilot 149)))))
       = [StarLayerFar, StarLayerNear, GameLayer, UiLayer]
   \<and> (\<exists>s0 k0. resetGame rng0 (snd (run rng0 pilot 149)) (fst (run rng0 pilot 149)) = (s0, k0)
         \<and> lives s0 = 3 \<and> score s0 = 0 \<and> \<not> gameOver s0
         \<and> int (length (asteroids s0)) = ASTEROIDS_START)"
proof -
  have r: "reachable rng0 (fst (run rng0 pilot 149)) (snd (run rng0 pilot 149))"
    by (rule run_reachable [OF valid_rng0 valid_axes_pilot])
  have g: "gameOver (fst (run rng0 pilot 149))"
    by (simp add: run_fields gameRun_pilot row2_def)
  have p: "getButtonJustPressed restarting ''Restart''" by (simp add: restarting_def)
  from restart_resets_game [OF r g p] r g p
  show ?thesis by auto
qed

text \<open>
  C8. Game-over freezes the state: for every state with \<open>gameOver\<close> true, if Restart is
  not just pressed, \<open>updateUser\<close> returns early: the user data is the same record (every
  field, stars and asteroids included), no random value is drawn, no layer receives a
  commit and nothing is raised.
\<close>

theorem game_over_freezes:
  "gameOver state \<Longrightarrow> \<not> getButtonJustPressed user ''Restart'' \<Longrightarrow>
   updateUser rng k user (Some state)
     = \<lparr>data = Some state, rngPos = k, commits = [], raised = None\<rparr>"
  by (simp add: updateUser_def beforeCollision_def)

theorem game_over_freezes_witness:
  "gameOver lostGame \<and> \<not> getButtonJustPressed idle ''Restart''
   \<and> updateUser rng0 5 idle (Some lostGame)
       = \<lparr>data = Some lostGame, rngPos = 5, commits = [], raised = None\<rparr>"
proof -
  have g: "gameOver lostGame" by (simp add: lostGame_def)
  have r: "\<not> getButtonJustPressed idle ''Restart''" by (simp add: idle_def)
  from g r game_over_freezes [OF g r, of rng0 5] show ?thesis by simp
qed

text \<open>
  C9. During the recovery period the ship takes no damage. \<open>beforeCollision\<close> gives the
  state \<open>s3\<close> in which the collision loop of a call starts, after the single decrement of
  the timer. If \<open>invincibilityFrames\<close> is positive there, the call is one on a running
  game (a restart enters the loop with the timer at 0), and after the call \<open>lives\<close> is what
  it was before, \<open>gameOver\<close> is still false and the timer is the decremented one: no
  collision took a life. Hence \<open>lives\<close> decreases in the loop only when the timer has reached 0.
\<close>

theorem no_damage_while_invincible:
  assumes "beforeCollision rng k user state = Some (s3, k2)"
    and "0 < invincibilityFrames s3"
    and "data (updateUser rng k user (Some state)) = Some state'"
  shows "\<not> gameOver state \<and> lives s3 = lives state
         \<and> invincibilityFrames s3 = invincibilityFrames state - 1
         \<and> lives state' = lives state \<and> \<not> gameOver state'
         \<and> invincibilityFrames state' = invincibilityFrames s3"
proof -
  have run: "\<not> gameOver state"
  proof
    assume over: "gameOver state"
    then have "getButtonJustPressed user ''Restart''"
      using assms(1) by (auto simp: beforeCollision_def split: if_splits)
    from beforeCollision_restart [OF over this, of rng k] assms(1)
    have "invincibilityFrames s3 = 0" by auto
    with assms(2) show False by simp
  qed
  have s3: "lives s3 = lives state" "\<not> gameOver s3"
    "invincibilityFrames s3
       = (if 0 < invincibilityFrames state then invincibilityFrames state - 1
          else invincibilityFrames state)"
    using beforeCollision_running [OF run, of rng k user] assms(1) by auto
  have timer: "invincibilityFrames s3 = invincibilityFrames state - 1"
    using s3(3) assms(2) by (simp split: if_splits)
  have "advance rng k user state = asteroidLoop rng k2 0 s3"
    using advance_running [OF run, of rng k user] assms(1) by auto
  then have "state' = fst (asteroidLoop rng k2 0 s3)"
    using assms(3) by (simp add: updateUser_advance)
  then show ?thesis
    using asteroidLoop_invincible [OF assms(2), of rng k2 0] run s3 timer by simp
qed

theorem no_damage_while_invincible_witness:
  "beforeCollision rng0 0 idle (shielded 5 13) = Some (shielded 4 13, 0)
   \<and> 0 < invincibilityFrames (shielded 4 13)
   \<and> data (updateUser rng0 0 idle (Some (shielded 5 13))) = Some (shielded 4 12)
   \<and> hits (shielded 4 12) (hd (asteroids (shielded 4 12)))
   \<and> lives (shielded 4 12) = lives (shielded 5 13)
   \<and> \<not> gameOver (shielded 4 12)"
proof -
  have b: "beforeCollision rng0 0 idle (shielded 5 13) = Some (shielded 4 13, 0)"
    by code_simp
  have f: "0 < invincibilityFrames (shielded 4 13)"
    by (simp add: shielded_def)
  have d: "data (updateUser rng0 0 idle (Some (shielded 5 13))) = Some (shielded 4 12)"
    by code_simp
  have h: "hits (shielded 4 12) (hd (asteroids (shielded 4 12)))"
    by (simp add: hits_def shielded_def)
  from no_damage_while_invincible [OF b f d] b f d h show ?thesis by simp
qed

text \<open>
  C10. \<open>renderUI\<close> is safe under the lives bound: for every state with
  \<open>0 \<le> lives \<le> 3\<close> both repeat counts are non-negative, so neither call of \<open>repeat\<close>
  raises \<open>RangeError\<close>; \<open>renderUI\<close> commits its orders to the UI layer, the second order
  being the red hearts (\<open>lives\<close> of them) and the third the gray ones (\<open>3 - lives\<close> of
  them, drawn from column \<open>1 + lives\<close>), and together they are exactly 3 hearts.
\<close>

theorem renderUI_safe:
  "0 \<le> lives state \<Longrightarrow> lives state \<le> 3 \<Longrightarrow>
   js_repeat heart (lives state) = Inr (replicate (nat (lives state)) (CHR 0x03))
   \<and> js_repeat heart (3 - lives state) = Inr (replicate (nat (3 - lives state)) (CHR 0x03))
   \<and> (\<exists>orders. renderUI state = Inr (UiLayer, orders)
         \<and> orders ! 1 = Text 1 1 (replicate (nat (lives state)) (CHR 0x03))
                           COLOR_GAMEOVER TRANSPARENT
         \<and> orders ! 2 = Text (1 + lives state) 1 (replicate (nat (3 - lives state)) (CHR 0x03))
                           COLOR_LOST_HEART TRANSPARENT)
   \<and> length (replicate (nat (lives state)) (CHR 0x03))
       + length (replicate (nat (3 - lives state)) (CHR 0x03)) = 3"
  by (simp add: renderUI_def js_repeat_heart)

theorem renderUI_safe_witness:
  "0 \<le> lives lostGame \<and> lives lostGame \<le> 3
   \<and> js_repeat heart (lives lostGame) = Inr []
   \<and> js_repeat heart (3 - lives lostGame) = Inr [CHR 0x03, CHR 0x03, CHR 0x03]
   \<and> (\<exists>orders. renderUI lostGame = Inr (UiLayer, orders))"
proof -
  have l: "0 \<le> lives lostGame" and u: "lives lostGame \<le> 3"
    by (simp_all add: lostGame_def)
  have n: "lives lostGame = 0" by (simp add: lostGame_def)
  from renderUI_safe [OF l u] l u show ?thesis
    by (simp add: n numeral_3_eq_3) blast
qed

end
